theory Spec2Isabelle
  imports Main
begin

section \<open>Dates and times\<close>

text \<open>
  A Python \<open>datetime\<close> (naive local time, microsecond resolution) is the number of
  microseconds since a fixed midnight; \<open>.date()\<close> is the day number and \<open>.time()\<close> the
  microseconds since that day's midnight.  The database stores \<open>scan_date\<close> and
  \<open>sign_out_date\<close> as they are passed to it.
\<close>

type_synonym datetime = int
type_synonym time_of_day = int

definition usec_per_day :: int where
  "usec_per_day = 86400000000"

definition date_of :: "datetime \<Rightarrow> int" where
  "date_of t = t div usec_per_day"

definition time_of :: "datetime \<Rightarrow> time_of_day" where
  "time_of t = t mod usec_per_day"

definition combine :: "int \<Rightarrow> time_of_day \<Rightarrow> datetime" where
  "combine d t = d * usec_per_day + t"

definition time_min :: time_of_day where
  "time_min = 0"

definition time_max :: time_of_day where
  "time_max = usec_per_day - 1"

definition today_start :: "datetime \<Rightarrow> datetime" where
  "today_start now = combine (date_of now) time_min"

definition today_end :: "datetime \<Rightarrow> datetime" where
  "today_end now = combine (date_of now) time_max"

definition mk_time :: "int \<Rightarrow> int \<Rightarrow> time_of_day" where
  "mk_time h m = (h * 3600 + m * 60) * 1000000"

definition SIGNIN_ALLOWED_TIME :: time_of_day where
  "SIGNIN_ALLOWED_TIME = mk_time 6 0"

definition CUTOFF_TIME :: time_of_day where
  "CUTOFF_TIME = mk_time 16 0"

definition LATE_SIGNIN_TIME :: time_of_day where
  "LATE_SIGNIN_TIME = mk_time 8 30"

text \<open>
  \<open>timedelta(minutes=COOLDOWN_MINUTES)\<close> with \<open>COOLDOWN_MINUTES = 0.3\<close>: the constructor
  turns 0.3 minutes into 18 seconds, held as whole microseconds.
\<close>

definition COOLDOWN :: int where
  "COOLDOWN = 18 * 1000000"

definition two_digits :: "int \<Rightarrow> string" where
  "two_digits n = [''0123456789'' ! nat (n div 10 mod 10), ''0123456789'' ! nat (n mod 10)]"

definition strftime_HMS :: "datetime \<Rightarrow> string" where
  "strftime_HMS t =
     (let secs = time_of t div 1000000
      in two_digits (secs div 3600) @ '':'' @ two_digits (secs div 60 mod 60) @ '':''
         @ two_digits (secs mod 60))"

section \<open>Tables, sheets and the process state\<close>

record staff_row =
  s_tag_id :: string
  s_Name :: string
  s_department :: string

record onsite_row =
  onsite_id :: nat
  tag_id :: string
  scan_date :: datetime
  Active :: int
  sign_out_date :: "datetime option"

type_synonym cell = "nat \<times> nat"
type_synonym sheet = "cell \<Rightarrow> string"
type_synonym cell_update = "cell \<times> string"

datatype sheet_call = MonthlyBatch "cell_update list" | DailyBatch "cell_update list"

text \<open>
  The state the script works on: the three tables, the module-level dictionary
  \<open>last_tap_times\<close>, the two worksheets (a cell is addressed by row and column, as
  \<open>rowcol_to_a1\<close> is), and the list of \<open>batch_update\<close> calls made so far, whether they
  succeeded or not.
\<close>

record world =
  staff :: "staff_row list"
  sign :: "(string \<times> string) list"
  onsite :: "onsite_row list"
  last_tap_times :: "string \<rightharpoonup> datetime"
  month_sheet :: sheet
  daily_sheet :: sheet
  sheet_calls :: "sheet_call list"

text \<open>The values \<open>initialize_sheets\<close> returns and the later functions are passed.\<close>

record caches =
  today_col_index :: nat
  staff_name_to_month_row_index :: "string \<rightharpoonup> nat"
  staff_name_to_daily_row_index :: "string \<rightharpoonup> nat"

text \<open>
  The collaborators are outside the script: each call to the database or to the
  spreadsheet service may fail, and each \<open>datetime.now()\<close> returns what the clock says.
  Both are given per call site; the calls inside the sweep's loop are told apart by the
  \<open>onsite_id\<close> of the record they are made for.
\<close>

datatype op =
    SelSign | SelStaffVerify | SelStaffName | InsSign
  | SelOnsiteLatest | InsOnsite | UpdOnsite
  | MonthlyBatchUpdate | DailyBatchUpdate
  | SweepSelect | SweepBegin | SweepResolve nat | SweepUpdate nat | SweepCommit
  | SweepBatchUpdate

datatype clock_site =
    ScanNow | CooldownNow
  | SweepCutoffNow | SweepStartNow | SweepEndNow | SweepStrNow | SweepStampNow nat

text \<open>
  How a call site fails.  \<open>_mysql_db_call\<close> and \<open>_gsheet_api_call\<close> are wrapped in a
  \<open>retry\<close> decorator that is used without \<open>reraise\<close>: an \<open>OperationalError\<close> (for the
  sheets an \<open>APIError\<close>) that is still raised at the fifth attempt leaves the wrapper as
  \<open>tenacity.RetryError\<close>, which is neither a \<open>mysql.connector.Error\<close> nor a gspread
  exception; every other exception leaves it at once, as it is.  At the sites of a write
  (\<open>InsSign\<close>, \<open>InsOnsite\<close>, \<open>UpdOnsite\<close>) \<open>RaisesError\<close> stands for an \<open>Error\<close> raised by
  \<open>execute\<close> or by the \<open>commit\<close> that follows it.  \<open>start_transaction\<close> and \<open>commit\<close> of
  the sweep (\<open>SweepBegin\<close>, \<open>SweepCommit\<close>) are called directly, so that whatever goes wrong
  there is an \<open>Error\<close>.
\<close>

datatype fault = NoFault | RaisesError | RetriesExhausted

record env =
  faults :: "op \<Rightarrow> fault"
  clock :: "clock_site \<Rightarrow> datetime"

datatype exn = MySQLError | SheetsError | RetryError

definition fails :: "env \<Rightarrow> op \<Rightarrow> bool" where
  "fails e x \<longleftrightarrow> faults e x \<noteq> NoFault"

text \<open>What a call through \<open>_mysql_db_call\<close> or \<open>_gsheet_api_call\<close> raises, if anything.\<close>

definition mysql_db_call :: "env \<Rightarrow> op \<Rightarrow> exn option" where
  "mysql_db_call e x =
     (case faults e x of
        NoFault \<Rightarrow> None
      | RaisesError \<Rightarrow> Some MySQLError
      | RetriesExhausted \<Rightarrow> Some RetryError)"

definition gsheet_api_call :: "env \<Rightarrow> op \<Rightarrow> exn option" where
  "gsheet_api_call e x =
     (case faults e x of
        NoFault \<Rightarrow> None
      | RaisesError \<Rightarrow> Some SheetsError
      | RetriesExhausted \<Rightarrow> Some RetryError)"

definition batch_update :: "sheet \<Rightarrow> cell_update list \<Rightarrow> sheet" where
  "batch_update sh ups = foldl (\<lambda>f (c, v). f(c := v)) sh ups"

section \<open>Identity resolution\<close>

definition staff_by_tag :: "staff_row list \<Rightarrow> string \<Rightarrow> staff_row option" where
  "staff_by_tag rows t = find (\<lambda>r. s_tag_id r = t) rows"

text \<open>
  \<open>get_assigned_name_and_tag\<close>: the result is the name (the tag returned with it is the
  tag passed in); \<open>None\<close> stands for \<open>(None, None)\<close>.  Nothing a \<open>SELECT\<close> raises is caught
  here.  An \<open>Error\<close> from the \<open>INSERT\<close> or its \<open>commit\<close> is caught and rolled back; a
  \<open>RetryError\<close> from the \<open>INSERT\<close> is not.
\<close>

definition get_assigned_name_and_tag ::
  "env \<Rightarrow> world \<Rightarrow> string \<Rightarrow> (exn + string option) \<times> world" where
  "get_assigned_name_and_tag e s t =
     (case mysql_db_call e SelSign of
        Some x \<Rightarrow> (Inl x, s)
      | None \<Rightarrow>
         (case map_of (sign s) t of
            Some assigned_name \<Rightarrow>
              (case mysql_db_call e SelStaffVerify of
                 Some x \<Rightarrow> (Inl x, s)
               | None \<Rightarrow>
                  (case staff_by_tag (staff s) t of
                     None \<Rightarrow> (Inr None, s)
                   | Some _ \<Rightarrow> (Inr (Some assigned_name), s)))
          | None \<Rightarrow>
              (case mysql_db_call e SelStaffName of
                 Some x \<Rightarrow> (Inl x, s)
               | None \<Rightarrow>
                  (case staff_by_tag (staff s) t of
                     Some st \<Rightarrow>
                       (case faults e InsSign of
                          NoFault \<Rightarrow>
                            (Inr (Some (s_Name st)), s\<lparr>sign := sign s @ [(t, s_Name st)]\<rparr>)
                        | RaisesError \<Rightarrow> (Inr None, s)
                        | RetriesExhausted \<Rightarrow> (Inl RetryError, s))
                   | None \<Rightarrow> (Inr None, s)))))"

section \<open>The onsite ledger\<close>

fun latest_row :: "onsite_row list \<Rightarrow> onsite_row option" where
  "latest_row [] = None"
| "latest_row (r # rs) =
     (case latest_row rs of
        None \<Rightarrow> Some r
      | Some r' \<Rightarrow> if scan_date r < scan_date r' then Some r' else Some r)"

definition in_window :: "datetime \<Rightarrow> datetime \<Rightarrow> onsite_row \<Rightarrow> bool" where
  "in_window lo hi r \<longleftrightarrow> lo \<le> scan_date r \<and> scan_date r \<le> hi"

definition todays_rows :: "onsite_row list \<Rightarrow> string \<Rightarrow> datetime \<Rightarrow> datetime \<Rightarrow> onsite_row list" where
  "todays_rows rows t lo hi = filter (\<lambda>r. tag_id r = t \<and> in_window lo hi r) rows"

text \<open>
  \<open>get_current_onsite_status\<close>: \<open>ORDER BY scan_date DESC LIMIT 1\<close> over the tag's rows in
  the window; \<open>None\<close> stands for \<open>(None, None)\<close>.  Among rows with the same \<open>scan_date\<close>
  the one stored first is taken.
\<close>

definition get_current_onsite_status ::
  "onsite_row list \<Rightarrow> string \<Rightarrow> datetime \<Rightarrow> datetime \<Rightarrow> (int \<times> nat) option" where
  "get_current_onsite_status rows t lo hi =
     map_option (\<lambda>r. (Active r, onsite_id r)) (latest_row (todays_rows rows t lo hi))"

text \<open>The \<open>AUTO_INCREMENT\<close> key of a new row: one more than every key in the table.\<close>

definition next_onsite_id :: "onsite_row list \<Rightarrow> nat" where
  "next_onsite_id rows = Suc (foldr max (map onsite_id rows) 0)"

definition mark_out :: "onsite_row list \<Rightarrow> nat \<Rightarrow> datetime \<Rightarrow> onsite_row list" where
  "mark_out rows oid now =
     map (\<lambda>r. if onsite_id r = oid then r\<lparr>Active := 0, sign_out_date := Some now\<rparr> else r) rows"

text \<open>
  The two writes to \<open>onsite\<close>.  An \<open>Error\<close> from \<open>execute\<close> or \<open>commit\<close> is caught, rolled
  back and answered with \<open>False\<close>; a \<open>RetryError\<close> from \<open>execute\<close> leaves the function, the
  statement not having been executed.
\<close>

definition add_onsite_record_to_db ::
  "env \<Rightarrow> world \<Rightarrow> string \<Rightarrow> datetime \<Rightarrow> (exn + bool) \<times> world" where
  "add_onsite_record_to_db e s t now =
     (case faults e InsOnsite of
        NoFault \<Rightarrow>
          (Inr True, s\<lparr>onsite := onsite s @
              [\<lparr>onsite_id = next_onsite_id (onsite s), tag_id = t, scan_date = now,
                Active = 1, sign_out_date = None\<rparr>]\<rparr>)
      | RaisesError \<Rightarrow> (Inr False, s)
      | RetriesExhausted \<Rightarrow> (Inl RetryError, s))"

definition update_onsite_record_in_db ::
  "env \<Rightarrow> world \<Rightarrow> nat \<Rightarrow> datetime \<Rightarrow> (exn + bool) \<times> world" where
  "update_onsite_record_in_db e s oid now =
     (case faults e UpdOnsite of
        NoFault \<Rightarrow> (Inr True, s\<lparr>onsite := mark_out (onsite s) oid now\<rparr>)
      | RaisesError \<Rightarrow> (Inr False, s)
      | RetriesExhausted \<Rightarrow> (Inl RetryError, s))"

definition get_staff_name_by_tag_id :: "staff_row list \<Rightarrow> string \<Rightarrow> string option" where
  "get_staff_name_by_tag_id rows t = map_option s_Name (staff_by_tag rows t)"

section \<open>Sheet updates and the policy gates\<close>

definition update_monthly_sheet_status ::
  "env \<Rightarrow> caches \<Rightarrow> world \<Rightarrow> string \<Rightarrow> time_of_day \<Rightarrow> int \<Rightarrow> (exn + unit) \<times> world" where
  "update_monthly_sheet_status e c s assigned_name now_time current_db_status_active =
     (case staff_name_to_month_row_index c assigned_name of
        None \<Rightarrow> (Inr (), s)
      | Some row_index \<Rightarrow>
          if row_index = 0 then (Inr (), s)
          else if current_db_status_active = 1 then
            (let new_status = (if now_time > LATE_SIGNIN_TIME then ''Present(LATE)'' else ''Present'');
                 ups = [((row_index, today_col_index c), new_status)];
                 s' = s\<lparr>sheet_calls := sheet_calls s @ [MonthlyBatch ups]\<rparr>
             in case gsheet_api_call e MonthlyBatchUpdate of
                  Some x \<Rightarrow> (Inl x, s')
                | None \<Rightarrow> (Inr (), s'\<lparr>month_sheet := batch_update (month_sheet s') ups\<rparr>))
          else (Inr (), s))"

definition is_after_cutoff :: "time_of_day \<Rightarrow> bool" where
  "is_after_cutoff current_time \<longleftrightarrow> current_time > CUTOFF_TIME"

definition is_signin_allowed :: "time_of_day \<Rightarrow> bool" where
  "is_signin_allowed current_time \<longleftrightarrow>
     SIGNIN_ALLOWED_TIME \<le> current_time \<and> current_time \<le> CUTOFF_TIME"

definition update_daily_sheet_row ::
  "env \<Rightarrow> caches \<Rightarrow> world \<Rightarrow> string \<Rightarrow> string \<Rightarrow> string \<Rightarrow> (exn + bool) \<times> world" where
  "update_daily_sheet_row e c s user_name new_status current_time_str =
     (case staff_name_to_daily_row_index c user_name of
        None \<Rightarrow> (Inr False, s)
      | Some row \<Rightarrow>
          if row = 0 then (Inr False, s)
          else
            (let ups = [((row, 3), new_status), ((row, 4), current_time_str)];
                 s' = s\<lparr>sheet_calls := sheet_calls s @ [DailyBatch ups]\<rparr>
             in case gsheet_api_call e DailyBatchUpdate of
                  Some x \<Rightarrow> (Inl x, s')
                | None \<Rightarrow> (Inr True, s'\<lparr>daily_sheet := batch_update (daily_sheet s') ups\<rparr>)))"

text \<open>\<open>check_cooldown\<close>, with the clock reading and the dictionary it uses passed in.\<close>

definition check_cooldown :: "datetime \<Rightarrow> (string \<rightharpoonup> datetime) \<Rightarrow> string \<Rightarrow> bool" where
  "check_cooldown now taps user_name =
     (case taps user_name of
        None \<Rightarrow> True
      | Some prev \<Rightarrow> \<not> (now - prev < COOLDOWN))"

section \<open>Processing a scan\<close>

definition on_tag_scan :: "env \<Rightarrow> caches \<Rightarrow> world \<Rightarrow> string \<Rightarrow> (exn + bool) \<times> world" where
  "on_tag_scan e c s t =
     (let now = clock e ScanNow;
          current_time = time_of now
      in case get_assigned_name_and_tag e s t of
           (Inl x, s1) \<Rightarrow> (Inl x, s1)
         | (Inr None, s1) \<Rightarrow> (Inr False, s1)
         | (Inr (Some assigned_name), s1) \<Rightarrow>
             if assigned_name = [] then (Inr False, s1)
             else if \<not> check_cooldown (clock e CooldownNow) (last_tap_times s1) assigned_name
               then (Inr False, s1)
             else if \<not> is_signin_allowed current_time then (Inr False, s1)
             else
               (let s2 = s1\<lparr>last_tap_times := (last_tap_times s1)(assigned_name \<mapsto> now)\<rparr>
                in case mysql_db_call e SelOnsiteLatest of
                     Some x \<Rightarrow> (Inl x, s2)
                   | None \<Rightarrow>
                     (let (signing_out, db_result, s3) =
                            (case get_current_onsite_status (onsite s2) t (today_start now) (today_end now) of
                               Some (current_db_status_active, onsite_record_id) \<Rightarrow>
                                 if current_db_status_active = 1
                                 then (True, update_onsite_record_in_db e s2 onsite_record_id now)
                                 else (False, add_onsite_record_to_db e s2 t now)
                             | None \<Rightarrow> (False, add_onsite_record_to_db e s2 t now));
                          sheet_update_status = (if signing_out then ''OUT'' else ''IN'');
                          monthly_sheet_db_status = (if signing_out then 0 else 1)
                      in case db_result of
                           Inl x \<Rightarrow> (Inl x, s3)
                         | Inr db_action_successful \<Rightarrow>
                             if db_action_successful then
                               (case update_monthly_sheet_status e c s3 assigned_name current_time
                                       monthly_sheet_db_status of
                                  (Inl x, s4) \<Rightarrow> (Inl x, s4)
                                | (Inr _, s4) \<Rightarrow>
                                    (case update_daily_sheet_row e c s4 assigned_name
                                            sheet_update_status (strftime_HMS now) of
                                       (Inl x, s5) \<Rightarrow> (Inl x, s5)
                                     | (Inr _, s5) \<Rightarrow> (Inr True, s5)))
                             else (Inr False, s3))))"

section \<open>The end-of-day sweep\<close>

definition staged_out :: "(string \<rightharpoonup> nat) \<Rightarrow> string \<Rightarrow> string \<Rightarrow> cell_update list" where
  "staged_out rowmap assigned_name now_str =
     (case rowmap assigned_name of
        None \<Rightarrow> []
      | Some row \<Rightarrow> if row = 0 then [] else [((row, 3), ''OUT''), ((row, 4), now_str)])"

text \<open>
  The loop over \<open>users_to_mark_out\<close> inside the transaction.  It works on the pending
  contents of \<open>onsite\<close> and on \<open>daily_sheet_updates\<close>; the first database call that raises
  ends it with what it raises.
\<close>

fun sweep_loop ::
  "env \<Rightarrow> staff_row list \<Rightarrow> (string \<rightharpoonup> nat) \<Rightarrow> string \<Rightarrow> onsite_row list
     \<Rightarrow> onsite_row list \<times> cell_update list \<Rightarrow> exn + (onsite_row list \<times> cell_update list)" where
  "sweep_loop e st rowmap now_str [] acc = Inr acc"
| "sweep_loop e st rowmap now_str (u # us) (db, ups) =
     (case mysql_db_call e (SweepResolve (onsite_id u)) of
        Some x \<Rightarrow> Inl x
      | None \<Rightarrow>
         (case get_staff_name_by_tag_id st (tag_id u) of
            None \<Rightarrow> sweep_loop e st rowmap now_str us (db, ups)
          | Some assigned_name \<Rightarrow>
              if assigned_name = [] then sweep_loop e st rowmap now_str us (db, ups)
              else
                (case mysql_db_call e (SweepUpdate (onsite_id u)) of
                   Some x \<Rightarrow> Inl x
                 | None \<Rightarrow>
                     sweep_loop e st rowmap now_str us
                       (mark_out db (onsite_id u) (clock e (SweepStampNow (onsite_id u))),
                        ups @ staged_out rowmap assigned_name now_str))))"

definition users_to_mark_out :: "env \<Rightarrow> onsite_row list \<Rightarrow> onsite_row list" where
  "users_to_mark_out e rows =
     filter (\<lambda>r. Active r = 1 \<and>
                  in_window (today_start (clock e SweepStartNow))
                            (today_end (clock e SweepEndNow)) r) rows"

text \<open>
  The \<open>try\<close> block up to and including \<open>commit\<close>, with what ends it early.
\<close>

definition sweep_transaction ::
  "env \<Rightarrow> caches \<Rightarrow> world \<Rightarrow> onsite_row list \<Rightarrow> string
     \<Rightarrow> exn + (onsite_row list \<times> cell_update list)" where
  "sweep_transaction e c s users now_str =
     (if fails e SweepBegin then Inl MySQLError
      else case sweep_loop e (staff s) (staff_name_to_daily_row_index c) now_str users
                  (onsite s, []) of
        Inl x \<Rightarrow> Inl x
      | Inr (db, daily_sheet_updates) \<Rightarrow>
          if fails e SweepCommit then Inl MySQLError else Inr (db, daily_sheet_updates))"

text \<open>
  \<open>onsite\<close> is the committed table.  An \<open>Error\<close> in the transaction is caught by the
  \<open>except\<close> clause, which rolls back and lets the function return.  A \<open>RetryError\<close> is not
  caught: it leaves the function without a rollback, and the updates executed so far stay
  uncommitted (the main block closes the connection).
\<close>

definition auto_mark_out_all_users :: "env \<Rightarrow> caches \<Rightarrow> world \<Rightarrow> (exn + unit) \<times> world" where
  "auto_mark_out_all_users e c s =
     (if is_after_cutoff (time_of (clock e SweepCutoffNow)) then
        (case mysql_db_call e SweepSelect of
           Some x \<Rightarrow> (Inl x, s)
         | None \<Rightarrow>
          (let users = users_to_mark_out e (onsite s);
               now_str = strftime_HMS (clock e SweepStrNow)
           in if users \<noteq> [] then
                (case sweep_transaction e c s users now_str of
                   Inl x \<Rightarrow> if x = MySQLError then (Inr (), s) else (Inl x, s)
                 | Inr (db, daily_sheet_updates) \<Rightarrow>
                     (let s1 = s\<lparr>onsite := db\<rparr>
                      in if daily_sheet_updates \<noteq> [] then
                           (let s2 = s1\<lparr>sheet_calls :=
                                         sheet_calls s1 @ [DailyBatch daily_sheet_updates]\<rparr>
                            in case gsheet_api_call e SweepBatchUpdate of
                                 Some x \<Rightarrow> (Inl x, s2)
                               | None \<Rightarrow> (Inr (), s2\<lparr>daily_sheet :=
                                       batch_update (daily_sheet s2) daily_sheet_updates\<rparr>))
                         else (Inr (), s1)))
              else (Inr (), s)))
      else (Inr (), s))"

section \<open>The script's entry point\<close>

text \<open>
  How a block of Python ends: it runs to its end, \<open>sys.exit\<close> raises \<open>SystemExit\<close> with a
  code, or another exception is raised.
\<close>

datatype signal = Completed | SystemExit int | Exception exn

text \<open>
  What one invocation meets outside the tables: whether the environment variables are all
  set, whether the lock directory can be made, whether the spreadsheet service accepts
  the credentials, the tag text (\<open>sys.argv[1]\<close> or the typed line), whether the lock and
  the database connection are obtained, and what \<open>initialize_sheets\<close> reads and returns:
  the header row of the monthly sheet as it is read back, today's date string, whether
  one of its calls raises, and the caches it builds.
\<close>

record invocation =
  config_present :: bool
  lock_dir_ok :: bool
  sheets_auth_ok :: bool
  tag_text :: string
  lock_acquired :: bool
  db_connected :: bool
  current_month_headers :: "string list"
  today_str :: string
  init_raises :: "exn option"
  month_rows :: "string \<rightharpoonup> nat"
  daily_rows :: "string \<rightharpoonup> nat"

fun py_index :: "'a list \<Rightarrow> 'a \<Rightarrow> nat option" where
  "py_index [] y = None"
| "py_index (x # xs) y = (if x = y then Some 0 else map_option Suc (py_index xs y))"

definition is_space :: "char \<Rightarrow> bool" where
  "is_space ch \<longleftrightarrow> ch \<in> set [CHR '' '', CHR 0x09, CHR 0x0A, CHR 0x0B, CHR 0x0C, CHR 0x0D,
                              CHR 0x1C, CHR 0x1D, CHR 0x1E, CHR 0x1F]"

definition strip :: "string \<Rightarrow> string" where
  "strip xs = rev (dropWhile is_space (rev (dropWhile is_space xs)))"

definition lower_char :: "char \<Rightarrow> char" where
  "lower_char ch =
     (case map_of (zip ''ABCDEFGHIJKLMNOPQRSTUVWXYZ'' ''abcdefghijklmnopqrstuvwxyz'') ch of
        Some l \<Rightarrow> l
      | None \<Rightarrow> ch)"

definition lower :: "string \<Rightarrow> string" where
  "lower xs = map lower_char xs"

text \<open>
  The part of \<open>initialize_sheets\<close> that decides how it ends: a raising call, or the
  search for today's column in the header row, which exits with 1 when it is absent.
\<close>

definition initialize_sheets :: "invocation \<Rightarrow> signal + caches" where
  "initialize_sheets iv =
     (case init_raises iv of
        Some x \<Rightarrow> Inl (Exception x)
      | None \<Rightarrow>
          (case py_index (current_month_headers iv) (today_str iv) of
             None \<Rightarrow> Inl (SystemExit 1)
           | Some i \<Rightarrow> Inr \<lparr>today_col_index = i + 1,
                           staff_name_to_month_row_index = month_rows iv,
                           staff_name_to_daily_row_index = daily_rows iv\<rparr>))"

text \<open>The body of the \<open>try\<close> statement of the main block.\<close>

definition main_try_body :: "invocation \<Rightarrow> env \<Rightarrow> world \<Rightarrow> string \<Rightarrow> signal \<times> world" where
  "main_try_body iv e s example_tag_id =
     (if \<not> lock_acquired iv then (SystemExit 1, s)
      else if \<not> db_connected iv then (SystemExit 1, s)
      else case initialize_sheets iv of
        Inl sg \<Rightarrow> (sg, s)
      | Inr c \<Rightarrow>
          (if lower example_tag_id = ''exit'' then (SystemExit 0, s)
           else (case on_tag_scan e c s example_tag_id of
              (Inl x, s1) \<Rightarrow> (Exception x, s1)
            | (Inr success, s1) \<Rightarrow>
                (case auto_mark_out_all_users e c s1 of
                   (Inl x, s2) \<Rightarrow> (Exception x, s2)
                 | (Inr _, s2) \<Rightarrow> (Completed, s2)))))"

text \<open>
  The \<open>except\<close> clauses catch every \<open>Exception\<close> and log it; \<open>SystemExit\<close> is not an
  \<open>Exception\<close> and passes through.  The \<open>finally\<close> clause ends with \<open>sys.exit(0)\<close>: raising
  in a \<open>finally\<close> clause replaces whatever was on its way out of the \<open>try\<close> statement.
\<close>

definition except_Exception :: "signal \<Rightarrow> signal" where
  "except_Exception sg = (case sg of Exception _ \<Rightarrow> Completed | _ \<Rightarrow> sg)"

definition finally_sys_exit :: "int \<Rightarrow> signal \<Rightarrow> signal" where
  "finally_sys_exit code sg = SystemExit code"

definition exit_code :: "signal \<Rightarrow> int" where
  "exit_code sg = (case sg of SystemExit n \<Rightarrow> n | Completed \<Rightarrow> 0 | Exception _ \<Rightarrow> 1)"

definition script :: "invocation \<Rightarrow> env \<Rightarrow> world \<Rightarrow> signal \<times> world" where
  "script iv e s =
     (if \<not> config_present iv then (SystemExit 1, s)
      else if \<not> lock_dir_ok iv then (SystemExit 1, s)
      else if \<not> sheets_auth_ok iv then (SystemExit 1, s)
      else
        (let example_tag_id = strip (tag_text iv)
         in if example_tag_id = [] then (SystemExit 1, s)
            else case main_try_body iv e s example_tag_id of
              (sg, s1) \<Rightarrow> (finally_sys_exit 0 (except_Exception sg), s1)))"

definition process_exit_code :: "invocation \<Rightarrow> env \<Rightarrow> world \<Rightarrow> int" where
  "process_exit_code iv e s = exit_code (fst (script iv e s))"


section \<open>Notions used to state the properties\<close>

text \<open>
  The name a scan is processed for when it passes the three gates of \<open>on_tag_scan\<close>
  (identity, cooldown, time window); \<open>None\<close> when a gate rejects it or identity
  resolution raises.
\<close>

definition gates_passed :: "env \<Rightarrow> world \<Rightarrow> string \<Rightarrow> string option" where
  "gates_passed e s t =
     (case fst (get_assigned_name_and_tag e s t) of
        Inr (Some n) \<Rightarrow>
          if n \<noteq> [] \<and> check_cooldown (clock e CooldownNow) (last_tap_times s) n
               \<and> is_signin_allowed (time_of (clock e ScanNow))
          then Some n else None
      | _ \<Rightarrow> None)"

text \<open>A gate rejects the scan: identity resolution returns no name, or the cooldown or
  the time window refuses.\<close>

definition rejected_by_gate :: "env \<Rightarrow> world \<Rightarrow> string \<Rightarrow> bool" where
  "rejected_by_gate e s t =
     (case fst (get_assigned_name_and_tag e s t) of
        Inl _ \<Rightarrow> False
      | Inr None \<Rightarrow> True
      | Inr (Some n) \<Rightarrow>
          n = [] \<or> \<not> check_cooldown (clock e CooldownNow) (last_tap_times s) n
                 \<or> \<not> is_signin_allowed (time_of (clock e ScanNow)))"

text \<open>The derived state \<open>ActiveIn\<close>: the tag's latest row of the day of \<open>now\<close> has
  \<open>Active = 1\<close>.\<close>

definition currently_in :: "onsite_row list \<Rightarrow> string \<Rightarrow> datetime \<Rightarrow> bool" where
  "currently_in rows t now =
     (case get_current_onsite_status rows t (today_start now) (today_end now) of
        Some (a, _) \<Rightarrow> a = 1
      | None \<Rightarrow> False)"

text \<open>The gates pass, the status query succeeds and the write to \<open>onsite\<close> raises.\<close>

definition ledger_write_fails :: "env \<Rightarrow> world \<Rightarrow> string \<Rightarrow> bool" where
  "ledger_write_fails e s t =
     (gates_passed e s t \<noteq> None \<and> \<not> fails e SelOnsiteLatest \<and>
      (if currently_in (onsite s) t (clock e ScanNow) then fails e UpdOnsite
       else fails e InsOnsite))"














definition closed_at :: "datetime \<Rightarrow> onsite_row \<Rightarrow> onsite_row" where
  "closed_at now r = r\<lparr>Active := 0, sign_out_date := Some now\<rparr>"

text \<open>
  The rows the sweep closes: those it selects (\<open>Active = 1\<close>, inside the window) whose tag
  has a row in \<open>Staff\<close> with a non-empty name; and the daily-sheet updates it stages for
  such a row.
\<close>

definition resolves :: "staff_row list \<Rightarrow> onsite_row \<Rightarrow> bool" where
  "resolves st r =
     (case get_staff_name_by_tag_id st (tag_id r) of Some n \<Rightarrow> n \<noteq> [] | None \<Rightarrow> False)"

definition swept :: "env \<Rightarrow> staff_row list \<Rightarrow> onsite_row \<Rightarrow> bool" where
  "swept e st r \<longleftrightarrow>
     Active r = 1 \<and> in_window (today_start (clock e SweepStartNow)) (today_end (clock e SweepEndNow)) r
     \<and> resolves st r"

definition staged_for ::
  "staff_row list \<Rightarrow> (string \<rightharpoonup> nat) \<Rightarrow> string \<Rightarrow> onsite_row \<Rightarrow> cell_update list" where
  "staged_for st rowmap now_str r =
     (case get_staff_name_by_tag_id st (tag_id r) of
        Some n \<Rightarrow> staged_out rowmap n now_str
      | None \<Rightarrow> [])"

text \<open>
  A call of the sweep's transaction fails: \<open>start_transaction\<close>, the name lookup for a
  selected record, the \<open>UPDATE\<close> of a selected record whose name was found, or \<open>commit\<close>.
\<close>

definition sweep_call_fails :: "env \<Rightarrow> staff_row list \<Rightarrow> onsite_row list \<Rightarrow> bool" where
  "sweep_call_fails e st rows \<longleftrightarrow>
     fails e SweepBegin
     \<or> (\<exists>r \<in> set rows.
           Active r = 1
           \<and> in_window (today_start (clock e SweepStartNow)) (today_end (clock e SweepEndNow)) r
           \<and> (fails e (SweepResolve (onsite_id r))
                \<or> (resolves st r \<and> fails e (SweepUpdate (onsite_id r)))))
     \<or> fails e SweepCommit"

text \<open>The table with the rows whose key is in \<open>ids\<close> closed, each at the clock reading
  taken for it.\<close>

definition close_rows :: "env \<Rightarrow> nat set \<Rightarrow> onsite_row list \<Rightarrow> onsite_row list" where
  "close_rows e ids rows =
     map (\<lambda>r. if onsite_id r \<in> ids then closed_at (clock e (SweepStampNow (onsite_id r))) r else r)
       rows"

section \<open>Sample data\<close>

text \<open>One staff member, Alice with tag T1, cached in row 2 of both sheets; today's
  column of the monthly sheet is column 2.\<close>

definition ex_caches :: caches where
  "ex_caches = \<lparr>today_col_index = 2,
                 staff_name_to_month_row_index = [''Alice'' \<mapsto> 2],
                 staff_name_to_daily_row_index = [''Alice'' \<mapsto> 2]\<rparr>"

definition ex_world :: world where
  "ex_world = \<lparr>staff = [\<lparr>s_tag_id = ''T1'', s_Name = ''Alice'', s_department = ''Ops''\<rparr>],
                sign = [], onsite = [], last_tap_times = Map.empty,
                month_sheet = (\<lambda>_. []), daily_sheet = (\<lambda>_. []), sheet_calls = []\<rparr>"

text \<open>Alice signed in at 07:00 of day 0 and has not signed out.\<close>

definition ex_row :: onsite_row where
  "ex_row = \<lparr>onsite_id = 1, tag_id = ''T1'', scan_date = 25200000000, Active = 1,
              sign_out_date = None\<rparr>"

definition ex_world_in :: world where
  "ex_world_in = ex_world\<lparr>sign := [(''T1'', ''Alice'')], onsite := [ex_row]\<rparr>"

text \<open>The same open record, after Alice's row was removed from \<open>Staff\<close>.\<close>

definition ex_world_orphan :: world where
  "ex_world_orphan = ex_world_in\<lparr>staff := []\<rparr>"


text \<open>Nothing fails; the clock reads 07:00, 07:10 or 17:00 of day 0 at every call.\<close>

definition ex_env_0700 :: env where
  "ex_env_0700 = \<lparr>faults = (\<lambda>_. NoFault), clock = (\<lambda>_. 25200000000)\<rparr>"

definition ex_env_0710 :: env where
  "ex_env_0710 = \<lparr>faults = (\<lambda>_. NoFault), clock = (\<lambda>_. 25800000000)\<rparr>"

definition ex_env_1700 :: env where
  "ex_env_1700 = \<lparr>faults = (\<lambda>_. NoFault), clock = (\<lambda>_. 61200000000)\<rparr>"

text \<open>At 07:00, with the \<open>INSERT\<close> into \<open>onsite\<close> raising an \<open>Error\<close>, and with it raising
  \<open>OperationalError\<close> at all five attempts.\<close>

definition ex_env_insert_fails :: env where
  "ex_env_insert_fails =
     \<lparr>faults = (\<lambda>x. if x = InsOnsite then RaisesError else NoFault),
      clock = (\<lambda>_. 25200000000)\<rparr>"

definition ex_env_insert_retry :: env where
  "ex_env_insert_retry =
     \<lparr>faults = (\<lambda>x. if x = InsOnsite then RetriesExhausted else NoFault),
      clock = (\<lambda>_. 25200000000)\<rparr>"

text \<open>At 17:00, with the sweep's \<open>commit\<close> raising.\<close>

definition ex_env_commit_fails :: env where
  "ex_env_commit_fails =
     \<lparr>faults = (\<lambda>x. if x = SweepCommit then RaisesError else NoFault),
      clock = (\<lambda>_. 61200000000)\<rparr>"

text \<open>Alice and Bob both signed in and not signed out; at 17:00 the sweep's \<open>UPDATE\<close> of
  the second record raises an \<open>Error\<close>, or raises \<open>OperationalError\<close> at all attempts.\<close>

definition ex_row_bob :: onsite_row where
  "ex_row_bob = \<lparr>onsite_id = 2, tag_id = ''T2'', scan_date = 25800000000, Active = 1,
                  sign_out_date = None\<rparr>"

definition ex_world_two :: world where
  "ex_world_two =
     ex_world\<lparr>staff := [\<lparr>s_tag_id = ''T1'', s_Name = ''Alice'', s_department = ''Ops''\<rparr>,
                         \<lparr>s_tag_id = ''T2'', s_Name = ''Bob'', s_department = ''Ops''\<rparr>],
              sign := [(''T1'', ''Alice''), (''T2'', ''Bob'')],
              onsite := [ex_row, ex_row_bob]\<rparr>"

definition ex_env_update_fails :: env where
  "ex_env_update_fails =
     \<lparr>faults = (\<lambda>x. if x = SweepUpdate 2 then RaisesError else NoFault),
      clock = (\<lambda>_. 61200000000)\<rparr>"

definition ex_env_update_retry :: env where
  "ex_env_update_retry =
     \<lparr>faults = (\<lambda>x. if x = SweepUpdate 2 then RetriesExhausted else NoFault),
      clock = (\<lambda>_. 61200000000)\<rparr>"

text \<open>
  Four runs of the script for tag T1 on day 0, each a new process and so with an empty
  \<open>last_tap_times\<close>, in which the clock reads 07:00:05, then 07:00:00, 07:00:02 and
  07:00:04.
\<close>

definition ex_env_070005 :: env where
  "ex_env_070005 = \<lparr>faults = (\<lambda>_. NoFault), clock = (\<lambda>_. 25205000000)\<rparr>"

definition ex_env_070002 :: env where
  "ex_env_070002 = \<lparr>faults = (\<lambda>_. NoFault), clock = (\<lambda>_. 25202000000)\<rparr>"

definition ex_env_070004 :: env where
  "ex_env_070004 = \<lparr>faults = (\<lambda>_. NoFault), clock = (\<lambda>_. 25204000000)\<rparr>"





text \<open>An invocation in which everything is in place but the lock is held by another
  instance, one in which the lock is acquired too, one in which the database cannot be
  reached, and one in which today's column is missing from the monthly sheet.\<close>

definition ex_invocation_locked :: invocation where
  "ex_invocation_locked =
     \<lparr>config_present = True, lock_dir_ok = True, sheets_auth_ok = True, tag_text = ''T1'',
      lock_acquired = False, db_connected = True,
      current_month_headers = [''Name'', ''2025-01-01''], today_str = ''2025-01-01'',
      init_raises = None, month_rows = [''Alice'' \<mapsto> 2], daily_rows = [''Alice'' \<mapsto> 2]\<rparr>"

definition ex_invocation_ok :: invocation where
  "ex_invocation_ok = ex_invocation_locked\<lparr>lock_acquired := True\<rparr>"

definition ex_invocation_no_db :: invocation where
  "ex_invocation_no_db = ex_invocation_locked\<lparr>lock_acquired := True, db_connected := False\<rparr>"

definition ex_invocation_no_column :: invocation where
  "ex_invocation_no_column =
     ex_invocation_locked\<lparr>lock_acquired := True, current_month_headers := [''Name'']\<rparr>"

section \<open>Basic facts about a scan\<close>

lemma fails_call: "mysql_db_call e x = None \<longleftrightarrow> \<not> fails e x"
  "gsheet_api_call e x = None \<longleftrightarrow> \<not> fails e x"
  by (simp_all add: mysql_db_call_def gsheet_api_call_def fails_def split: fault.splits)

lemma fails_fault: "faults e x = NoFault \<longleftrightarrow> \<not> fails e x"
  by (simp add: fails_def)

lemma no_fault:
  "\<not> fails e x \<Longrightarrow> mysql_db_call e x = None"
  "\<not> fails e x \<Longrightarrow> gsheet_api_call e x = None"
  "\<not> fails e x \<Longrightarrow> faults e x = NoFault"
  by (simp_all add: fails_call fails_fault)

lemma resolve_frame:
  "\<exists>sg. snd (get_assigned_name_and_tag e s t) = s\<lparr>sign := sg\<rparr>"
proof -
  have "s = s\<lparr>sign := sign s\<rparr>" by simp
  then show ?thesis
    unfolding get_assigned_name_and_tag_def
    by (auto split: option.splits fault.splits intro: exI[of _ "sign s"])
qed

lemma resolve_raise_state:
  "fst (get_assigned_name_and_tag e s t) = Inl x \<Longrightarrow> snd (get_assigned_name_and_tag e s t) = s"
  unfolding get_assigned_name_and_tag_def by (auto split: option.splits fault.splits)

lemma scan_resolve_raises:
  assumes "fst (get_assigned_name_and_tag e s t) = Inl x"
  shows "on_tag_scan e c s t = (Inl x, s)"
proof -
  obtain r s1 where R: "get_assigned_name_and_tag e s t = (r, s1)" by (cases "get_assigned_name_and_tag e s t")
  with assms resolve_raise_state[OF assms] have "r = Inl x" "s1 = s" by auto
  with R show ?thesis by (simp add: on_tag_scan_def Let_def)
qed

lemma scan_rejected:
  assumes "rejected_by_gate e s t"
  shows "on_tag_scan e c s t = (Inr False, snd (get_assigned_name_and_tag e s t))"
proof -
  obtain r s1 where R: "get_assigned_name_and_tag e s t = (r, s1)" by (cases "get_assigned_name_and_tag e s t")
  obtain sg where s1: "s1 = s\<lparr>sign := sg\<rparr>" using resolve_frame[of e s t] R by auto
  show ?thesis using assms R s1
    by (auto simp: rejected_by_gate_def on_tag_scan_def Let_def split: sum.splits option.splits)
qed

text \<open>What \<open>on_tag_scan\<close> does once the gates have passed.\<close>

lemma scan_passed:
  assumes "gates_passed e s t = Some n"
  shows "on_tag_scan e c s t =
     (let now = clock e ScanNow;
          s1 = snd (get_assigned_name_and_tag e s t);
          s2 = s1\<lparr>last_tap_times := (last_tap_times s)(n \<mapsto> now)\<rparr>
      in case mysql_db_call e SelOnsiteLatest of
           Some x \<Rightarrow> (Inl x, s2)
         | None \<Rightarrow>
           if currently_in (onsite s) t now then
             (case faults e UpdOnsite of
                RetriesExhausted \<Rightarrow> (Inl RetryError, s2)
              | RaisesError \<Rightarrow> (Inr False, s2)
              | NoFault \<Rightarrow>
                 (let s3 = s2\<lparr>onsite := mark_out (onsite s)
                            (snd (the (get_current_onsite_status (onsite s) t (today_start now) (today_end now)))) now\<rparr>
                  in case update_daily_sheet_row e c s3 n ''OUT'' (strftime_HMS now) of
                       (Inl x, s5) \<Rightarrow> (Inl x, s5)
                     | (Inr _, s5) \<Rightarrow> (Inr True, s5)))
           else
             (case faults e InsOnsite of
                RetriesExhausted \<Rightarrow> (Inl RetryError, s2)
              | RaisesError \<Rightarrow> (Inr False, s2)
              | NoFault \<Rightarrow>
                 (let s3 = s2\<lparr>onsite := onsite s @
                            [\<lparr>onsite_id = next_onsite_id (onsite s), tag_id = t, scan_date = now,
                              Active = 1, sign_out_date = None\<rparr>]\<rparr>
                  in case update_monthly_sheet_status e c s3 n (time_of now) 1 of
                       (Inl x, s4) \<Rightarrow> (Inl x, s4)
                     | (Inr _, s4) \<Rightarrow>
                         (case update_daily_sheet_row e c s4 n ''IN'' (strftime_HMS now) of
                            (Inl x, s5) \<Rightarrow> (Inl x, s5)
                          | (Inr _, s5) \<Rightarrow> (Inr True, s5)))))"
proof -
  obtain r s1 where R: "get_assigned_name_and_tag e s t = (r, s1)" by (cases "get_assigned_name_and_tag e s t")
  obtain sg where s1: "s1 = s\<lparr>sign := sg\<rparr>" using resolve_frame[of e s t] R by auto
  from assms R have r: "r = Inr (Some n)" and n: "n \<noteq> []"
    and cd: "check_cooldown (clock e CooldownNow) (last_tap_times s) n"
    and tw: "is_signin_allowed (time_of (clock e ScanNow))"
    by (auto simp: gates_passed_def split: sum.splits option.splits if_splits)
  have mo: "update_monthly_sheet_status e c w n tm 0 = (Inr (), w)" for w tm
    by (simp add: update_monthly_sheet_status_def split: option.splits)
  let ?st = "get_current_onsite_status (onsite s) t (today_start (clock e ScanNow))
               (today_end (clock e ScanNow))"
  show ?thesis
  proof (cases ?st)
    case None
    then show ?thesis
      unfolding on_tag_scan_def Let_def R r
      using n cd tw
      by (simp add: s1 currently_in_def add_onsite_record_to_db_def
          split: option.splits fault.splits)
  next
    case (Some p)
    obtain a oid where p: "p = (a, oid)" by (cases p)
    show ?thesis
    proof (cases "a = 1")
      case True
      with Some p show ?thesis
        unfolding on_tag_scan_def Let_def R r
        using n cd tw
        by (simp add: s1 currently_in_def update_onsite_record_in_db_def mo
            split: option.splits fault.splits)
    next
      case False
      with Some p show ?thesis
        unfolding on_tag_scan_def Let_def R r
        using n cd tw
        by (simp add: s1 currently_in_def add_onsite_record_to_db_def
            split: option.splits fault.splits)
    qed
  qed
qed

lemma fst_case_result:
  "fst (case p of (Inl x, w) \<Rightarrow> (Inl x, w) | (Inr y, w) \<Rightarrow> f y w) =
     (case fst p of Inl x \<Rightarrow> Inl x | Inr y \<Rightarrow> fst (f y (snd p)))"
  by (cases p) (simp split: sum.splits)

lemma snd_case_daily:
  "snd (case p of (Inl x, w) \<Rightarrow> (Inl x, w) | (Inr y, w) \<Rightarrow> (Inr True, w)) = snd p"
  by (cases p) (simp split: sum.splits)

lemma snd_case_monthly:
  "snd (case p of (Inl x, w) \<Rightarrow> (Inl x, w) | (Inr y, w) \<Rightarrow> f w) =
     (if isl (fst p) then snd p else snd (f (snd p)))"
  by (cases p) (simp split: sum.splits)

lemma scan_passed_state:
  assumes "gates_passed e s t = Some n"
  shows "snd (on_tag_scan e c s t) =
     (let now = clock e ScanNow;
          s2 = (snd (get_assigned_name_and_tag e s t))\<lparr>last_tap_times := (last_tap_times s)(n \<mapsto> now)\<rparr>
      in if fails e SelOnsiteLatest then s2
         else if currently_in (onsite s) t now then
           (if fails e UpdOnsite then s2
            else snd (update_daily_sheet_row e c
                   (s2\<lparr>onsite := mark_out (onsite s)
                         (snd (the (get_current_onsite_status (onsite s) t (today_start now) (today_end now)))) now\<rparr>)
                   n ''OUT'' (strftime_HMS now)))
         else
           (if fails e InsOnsite then s2
            else
              let m = update_monthly_sheet_status e c
                        (s2\<lparr>onsite := onsite s @
                         [\<lparr>onsite_id = next_onsite_id (onsite s), tag_id = t, scan_date = now,
                           Active = 1, sign_out_date = None\<rparr>]\<rparr>) n (time_of now) 1
              in if isl (fst m) then snd m
                 else snd (update_daily_sheet_row e c (snd m) n ''IN'' (strftime_HMS now))))"
  unfolding scan_passed[OF assms] Let_def
  by (simp add: snd_case_monthly snd_case_daily fails_def mysql_db_call_def split: fault.splits)

lemma scan_passed_fst:
  assumes "gates_passed e s t = Some n"
  shows "fst (on_tag_scan e c s t) =
     (let now = clock e ScanNow;
          s2 = (snd (get_assigned_name_and_tag e s t))\<lparr>last_tap_times := (last_tap_times s)(n \<mapsto> now)\<rparr>
      in case mysql_db_call e SelOnsiteLatest of
           Some x \<Rightarrow> Inl x
         | None \<Rightarrow>
           if currently_in (onsite s) t now then
             (case faults e UpdOnsite of
                RetriesExhausted \<Rightarrow> Inl RetryError
              | RaisesError \<Rightarrow> Inr False
              | NoFault \<Rightarrow>
                 (case fst (update_daily_sheet_row e c
                     (s2\<lparr>onsite := mark_out (onsite s)
                           (snd (the (get_current_onsite_status (onsite s) t (today_start now) (today_end now)))) now\<rparr>)
                     n ''OUT'' (strftime_HMS now)) of Inl x \<Rightarrow> Inl x | Inr _ \<Rightarrow> Inr True))
           else
             (case faults e InsOnsite of
                RetriesExhausted \<Rightarrow> Inl RetryError
              | RaisesError \<Rightarrow> Inr False
              | NoFault \<Rightarrow>
                 (let m = update_monthly_sheet_status e c
                          (s2\<lparr>onsite := onsite s @
                           [\<lparr>onsite_id = next_onsite_id (onsite s), tag_id = t, scan_date = now,
                             Active = 1, sign_out_date = None\<rparr>]\<rparr>) n (time_of now) 1
                  in case fst m of
                       Inl x \<Rightarrow> Inl x
                     | Inr _ \<Rightarrow> (case fst (update_daily_sheet_row e c (snd m) n ''IN'' (strftime_HMS now)) of
                                    Inl x \<Rightarrow> Inl x | Inr _ \<Rightarrow> Inr True))))"
  unfolding scan_passed[OF assms] Let_def
  by (simp add: fst_case_result split: fault.splits option.splits cong: sum.case_cong)

lemma monthly_fields:
  "staff (snd (update_monthly_sheet_status e c s n tm a)) = staff s"
  "sign (snd (update_monthly_sheet_status e c s n tm a)) = sign s"
  "onsite (snd (update_monthly_sheet_status e c s n tm a)) = onsite s"
  "last_tap_times (snd (update_monthly_sheet_status e c s n tm a)) = last_tap_times s"
  "daily_sheet (snd (update_monthly_sheet_status e c s n tm a)) = daily_sheet s"
  by (simp_all add: update_monthly_sheet_status_def Let_def split: option.splits)

lemma daily_fields:
  "staff (snd (update_daily_sheet_row e c s n st ts)) = staff s"
  "sign (snd (update_daily_sheet_row e c s n st ts)) = sign s"
  "onsite (snd (update_daily_sheet_row e c s n st ts)) = onsite s"
  "last_tap_times (snd (update_daily_sheet_row e c s n st ts)) = last_tap_times s"
  "month_sheet (snd (update_daily_sheet_row e c s n st ts)) = month_sheet s"
  by (simp_all add: update_daily_sheet_row_def Let_def split: option.splits)

lemma gates_passed_None:
  "gates_passed e s t = None \<Longrightarrow> rejected_by_gate e s t \<or> isl (fst (get_assigned_name_and_tag e s t))"
  by (auto simp: gates_passed_def rejected_by_gate_def split: sum.splits option.splits if_splits)

lemma rejected_not_passed: "rejected_by_gate e s t \<Longrightarrow> gates_passed e s t = None"
  by (auto simp: gates_passed_def rejected_by_gate_def split: sum.splits option.splits if_splits)

text \<open>Fields of the state after a scan whose gates passed.\<close>

lemma resolve_fields:
  "staff (snd (get_assigned_name_and_tag e s t)) = staff s"
  "onsite (snd (get_assigned_name_and_tag e s t)) = onsite s"
  "last_tap_times (snd (get_assigned_name_and_tag e s t)) = last_tap_times s"
  "month_sheet (snd (get_assigned_name_and_tag e s t)) = month_sheet s"
  "daily_sheet (snd (get_assigned_name_and_tag e s t)) = daily_sheet s"
  "sheet_calls (snd (get_assigned_name_and_tag e s t)) = sheet_calls s"
  using resolve_frame[of e s t] by auto


text \<open>Fields of the state after a scan whose gates passed.\<close>

lemma scan_passed_fields:
  assumes "gates_passed e s t = Some n"
  shows "last_tap_times (snd (on_tag_scan e c s t)) = (last_tap_times s)(n \<mapsto> clock e ScanNow)"
    and "sign (snd (on_tag_scan e c s t)) = sign (snd (get_assigned_name_and_tag e s t))"
    and "staff (snd (on_tag_scan e c s t)) = staff s"
  unfolding scan_passed_state[OF assms] Let_def
  by (simp_all add: monthly_fields daily_fields resolve_fields)

subsection \<open>Facts about the sample data\<close>

lemma ex_fails:
  "\<not> fails ex_env_0700 x" "\<not> fails ex_env_0710 x" "\<not> fails ex_env_1700 x"
  "\<not> fails ex_env_070005 x" "\<not> fails ex_env_070002 x" "\<not> fails ex_env_070004 x"
  "fails ex_env_insert_fails x \<longleftrightarrow> x = InsOnsite"
  "fails ex_env_insert_retry x \<longleftrightarrow> x = InsOnsite"
  "fails ex_env_commit_fails x \<longleftrightarrow> x = SweepCommit"
  "fails ex_env_update_fails x \<longleftrightarrow> x = SweepUpdate 2"
  "fails ex_env_update_retry x \<longleftrightarrow> x = SweepUpdate 2"
  by (simp_all add: fails_def ex_env_0700_def ex_env_0710_def ex_env_1700_def ex_env_070005_def
      ex_env_070002_def ex_env_070004_def ex_env_insert_fails_def ex_env_insert_retry_def
      ex_env_commit_fails_def ex_env_update_fails_def ex_env_update_retry_def)

lemma ex_1700_outside: "\<not> is_signin_allowed (time_of (clock ex_env_1700 ScanNow))"
  by (simp add: is_signin_allowed_def time_of_def ex_env_1700_def usec_per_day_def
      SIGNIN_ALLOWED_TIME_def CUTOFF_TIME_def mk_time_def)

lemma ex_in_resolves:
  "\<not> fails e SelSign \<Longrightarrow> \<not> fails e SelStaffVerify \<Longrightarrow>
   get_assigned_name_and_tag e ex_world_in ''T1'' = (Inr (Some ''Alice''), ex_world_in)"
  by (simp add: get_assigned_name_and_tag_def no_fault ex_world_in_def ex_world_def
      staff_by_tag_def)

lemma ex_resolves:
  "\<not> fails e SelSign \<Longrightarrow> \<not> fails e SelStaffName \<Longrightarrow> \<not> fails e InsSign \<Longrightarrow>
   get_assigned_name_and_tag e ex_world ''T1'' =
     (Inr (Some ''Alice''), ex_world\<lparr>sign := [(''T1'', ''Alice'')]\<rparr>)"
  by (simp add: get_assigned_name_and_tag_def no_fault
      ex_world_def staff_by_tag_def)

lemma ex_0700_inside: "is_signin_allowed (time_of 25200000000)"
  by (simp add: is_signin_allowed_def time_of_def usec_per_day_def
      SIGNIN_ALLOWED_TIME_def CUTOFF_TIME_def mk_time_def)

lemma ex_insert_fails_gates: "gates_passed ex_env_insert_fails ex_world ''T1'' = Some ''Alice''"
  by (simp add: gates_passed_def ex_resolves ex_fails)
     (simp add: ex_env_insert_fails_def ex_0700_inside check_cooldown_def ex_world_def)

lemma ex_insert_retry_gates: "gates_passed ex_env_insert_retry ex_world ''T1'' = Some ''Alice''"
  by (simp add: gates_passed_def ex_resolves ex_fails)
     (simp add: ex_env_insert_retry_def ex_0700_inside check_cooldown_def ex_world_def)

lemma ex_world_not_in: "\<not> currently_in (onsite ex_world) ''T1'' now"
  by (simp add: currently_in_def get_current_onsite_status_def todays_rows_def ex_world_def)

lemma ex_insert_fails_write: "ledger_write_fails ex_env_insert_fails ex_world ''T1''"
  by (simp add: ledger_write_fails_def ex_insert_fails_gates ex_fails ex_world_not_in)

lemma ex_insert_retry_write: "ledger_write_fails ex_env_insert_retry ex_world ''T1''"
  by (simp add: ledger_write_fails_def ex_insert_retry_gates ex_fails ex_world_not_in)

subsection \<open>The cooldown gate\<close>

text \<open>
  Claim C4.  For a name with a recorded tap, \<open>check_cooldown\<close> refuses exactly when less
  than the cooldown period has passed since that tap, so a tap exactly one period later
  (or any later one) passes; a name without a recorded tap always passes.  When the gate
  refuses the resolved name, \<open>on_tag_scan\<close> returns \<open>False\<close>.
\<close>

theorem cooldown_gate:
  "(taps user_name = Some prev \<longrightarrow>
      (check_cooldown now taps user_name \<longleftrightarrow> \<not> (now - prev < COOLDOWN)))
   \<and> (taps user_name = Some prev \<longrightarrow> COOLDOWN \<le> now - prev \<longrightarrow> check_cooldown now taps user_name)
   \<and> (taps user_name = None \<longrightarrow> check_cooldown now taps user_name)
   \<and> (fst (get_assigned_name_and_tag e s t) = Inr (Some n) \<longrightarrow>
        \<not> check_cooldown (clock e CooldownNow) (last_tap_times s) n \<longrightarrow>
        fst (on_tag_scan e c s t) = Inr False)"
proof -
  have "fst (on_tag_scan e c s t) = Inr False"
    if "fst (get_assigned_name_and_tag e s t) = Inr (Some n)"
      and "\<not> check_cooldown (clock e CooldownNow) (last_tap_times s) n"
  proof -
    from that have "rejected_by_gate e s t" by (simp add: rejected_by_gate_def)
    then show ?thesis by (simp add: scan_rejected)
  qed
  then show ?thesis by (auto simp: check_cooldown_def)
qed

theorem cooldown_gate_witness:
  "check_cooldown 18000000 [''Alice'' \<mapsto> 0] ''Alice''
   \<and> \<not> check_cooldown 17999999 [''Alice'' \<mapsto> 0] ''Alice''
   \<and> check_cooldown 5 Map.empty ''Alice''"
proof -
  have h: "[''Alice'' \<mapsto> (0::int)] ''Alice'' = Some 0" by simp
  have a: "check_cooldown 18000000 [''Alice'' \<mapsto> 0] ''Alice''"
    using cooldown_gate[where taps="[''Alice'' \<mapsto> 0]" and user_name="''Alice''" and prev=0
        and now=18000000, THEN conjunct1, rule_format, OF h]
    by (simp add: COOLDOWN_def)
  have b: "\<not> check_cooldown 17999999 [''Alice'' \<mapsto> 0] ''Alice''"
    using cooldown_gate[where taps="[''Alice'' \<mapsto> 0]" and user_name="''Alice''" and prev=0
        and now=17999999, THEN conjunct1, rule_format, OF h]
    by (simp add: COOLDOWN_def)
  have c: "check_cooldown 5 Map.empty ''Alice''"
    using cooldown_gate[where taps="Map.empty" and user_name="''Alice''" and now=5,
        THEN conjunct2, THEN conjunct2, THEN conjunct1, rule_format]
    by simp
  from a b c show ?thesis by blast
qed

subsection \<open>The time-window gate\<close>

text \<open>
  Claim C5.  \<open>is_signin_allowed\<close> holds exactly for the times from \<open>SIGNIN_ALLOWED_TIME\<close>
  to \<open>CUTOFF_TIME\<close>, both included.  A scan at any other time is never accepted,
  whatever the ledger holds for the tag: it returns \<open>False\<close> unless identity resolution
  itself raised, and the ledger, the registry and the sheets are as before.
\<close>

theorem time_window_gate:
  "(is_signin_allowed tm \<longleftrightarrow> SIGNIN_ALLOWED_TIME \<le> tm \<and> tm \<le> CUTOFF_TIME)
   \<and> (\<not> is_signin_allowed (time_of (clock e ScanNow)) \<longrightarrow>
        fst (on_tag_scan e c s t) \<noteq> Inr True
        \<and> (\<not> isl (fst (get_assigned_name_and_tag e s t)) \<longrightarrow> fst (on_tag_scan e c s t) = Inr False)
        \<and> onsite (snd (on_tag_scan e c s t)) = onsite s
        \<and> last_tap_times (snd (on_tag_scan e c s t)) = last_tap_times s
        \<and> month_sheet (snd (on_tag_scan e c s t)) = month_sheet s
        \<and> daily_sheet (snd (on_tag_scan e c s t)) = daily_sheet s
        \<and> sheet_calls (snd (on_tag_scan e c s t)) = sheet_calls s)"
proof -
  have "fst (on_tag_scan e c s t) \<noteq> Inr True
        \<and> (\<not> isl (fst (get_assigned_name_and_tag e s t)) \<longrightarrow> fst (on_tag_scan e c s t) = Inr False)
        \<and> onsite (snd (on_tag_scan e c s t)) = onsite s
        \<and> last_tap_times (snd (on_tag_scan e c s t)) = last_tap_times s
        \<and> month_sheet (snd (on_tag_scan e c s t)) = month_sheet s
        \<and> daily_sheet (snd (on_tag_scan e c s t)) = daily_sheet s
        \<and> sheet_calls (snd (on_tag_scan e c s t)) = sheet_calls s"
    if tw: "\<not> is_signin_allowed (time_of (clock e ScanNow))"
  proof (cases "fst (get_assigned_name_and_tag e s t)")
    case (Inl x)
    then show ?thesis by (simp add: scan_resolve_raises)
  next
    case (Inr r)
    with tw have rej: "rejected_by_gate e s t"
      by (simp add: rejected_by_gate_def split: option.splits)
    obtain sg where "snd (get_assigned_name_and_tag e s t) = s\<lparr>sign := sg\<rparr>"
      using resolve_frame[of e s t] by auto
    then show ?thesis by (simp add: scan_rejected[OF rej])
  qed
  then show ?thesis by (simp add: is_signin_allowed_def)
qed

theorem time_window_gate_witness:
  "\<not> is_signin_allowed (time_of (clock ex_env_1700 ScanNow))
   \<and> currently_in (onsite ex_world_in) ''T1'' (clock ex_env_1700 ScanNow)
   \<and> fst (on_tag_scan ex_env_1700 ex_caches ex_world_in ''T1'') = Inr False
   \<and> onsite (snd (on_tag_scan ex_env_1700 ex_caches ex_world_in ''T1'')) = onsite ex_world_in"
proof -
  have r: "\<not> isl (fst (get_assigned_name_and_tag ex_env_1700 ex_world_in ''T1''))"
    by (simp add: ex_in_resolves ex_fails)
  have p: "currently_in (onsite ex_world_in) ''T1'' (clock ex_env_1700 ScanNow)"
    by (simp add: currently_in_def get_current_onsite_status_def todays_rows_def in_window_def
        today_start_def today_end_def combine_def date_of_def time_min_def time_max_def
        usec_per_day_def ex_world_in_def ex_row_def ex_world_def ex_env_1700_def)
  from time_window_gate[where e=ex_env_1700 and s=ex_world_in and t="''T1''" and c=ex_caches,
      THEN conjunct2, rule_format, OF ex_1700_outside] r p ex_1700_outside
  show ?thesis by blast
qed

subsection \<open>Failed scans\<close>

text \<open>
  Whatever makes a scan fail, the \<open>onsite\<close> table and both sheets are as before and no
  sheet update was attempted.  The scan returns \<open>False\<close> when a gate rejects it and when
  the write to \<open>onsite\<close> raises an \<open>Error\<close>; when the write's retries are exhausted the
  \<open>RetryError\<close> leaves \<open>on_tag_scan\<close>.
\<close>

lemma failed_scan_frame:
  assumes "rejected_by_gate e s t \<or> ledger_write_fails e s t"
  shows "onsite (snd (on_tag_scan e c s t)) = onsite s
       \<and> month_sheet (snd (on_tag_scan e c s t)) = month_sheet s
       \<and> daily_sheet (snd (on_tag_scan e c s t)) = daily_sheet s
       \<and> sheet_calls (snd (on_tag_scan e c s t)) = sheet_calls s"
  using assms
proof
  assume rej: "rejected_by_gate e s t"
  then show ?thesis by (simp add: scan_rejected[OF rej] resolve_fields)
next
  assume wf: "ledger_write_fails e s t"
  then obtain n where n: "gates_passed e s t = Some n" by (auto simp: ledger_write_fails_def)
  show ?thesis
    using wf unfolding scan_passed_state[OF n] Let_def
    by (simp add: ledger_write_fails_def resolve_fields)
qed

lemma failed_scan_result:
  assumes "ledger_write_fails e s t"
  shows "fst (on_tag_scan e c s t) =
     (if faults e (if currently_in (onsite s) t (clock e ScanNow) then UpdOnsite else InsOnsite)
           = RetriesExhausted
      then Inl RetryError else Inr False)"
proof -
  from assms obtain n where n: "gates_passed e s t = Some n" by (auto simp: ledger_write_fails_def)
  from assms have q: "mysql_db_call e SelOnsiteLatest = None"
    by (simp add: ledger_write_fails_def no_fault)
  show ?thesis
  proof (cases "currently_in (onsite s) t (clock e ScanNow)")
    case True
    with assms have "faults e UpdOnsite \<noteq> NoFault" by (simp add: ledger_write_fails_def fails_def)
    with True show ?thesis
      unfolding scan_passed_fst[OF n] Let_def q by (simp split: fault.splits)
  next
    case False
    with assms have "faults e InsOnsite \<noteq> NoFault" by (simp add: ledger_write_fails_def fails_def)
    with False show ?thesis
      unfolding scan_passed_fst[OF n] Let_def q by (simp split: fault.splits)
  qed
qed

lemma scan_write_fails:
  assumes "ledger_write_fails e s t"
    and "faults e InsOnsite \<noteq> RetriesExhausted" and "faults e UpdOnsite \<noteq> RetriesExhausted"
  shows "fst (on_tag_scan e c s t) = Inr False"
  using assms by (simp add: failed_scan_result)

text \<open>
  Claim C2.  The specification has every failed write to \<open>onsite\<close> reported by
  \<open>on_tag_scan\<close> as a failure and rolled back.  Here the gates pass and the \<open>INSERT\<close> into
  \<open>onsite\<close> raises \<open>OperationalError\<close> at every attempt: the \<open>except Error\<close> clause of
  \<open>add_onsite_record_to_db\<close> does not catch the \<open>RetryError\<close>, \<open>on_tag_scan\<close> raises it
  instead of returning \<open>False\<close>, and the main block ends in its handler for unexpected
  exceptions without running the sweep.  With the same \<open>INSERT\<close> raising any other \<open>Error\<close>
  the scan returns \<open>False\<close> and the main block completes.  The ledger and the sheets are
  unchanged in both runs.
\<close>

theorem retry_error_escapes_failed_write:
  "ledger_write_fails ex_env_insert_retry ex_world ''T1''
   \<and> fst (on_tag_scan ex_env_insert_retry ex_caches ex_world ''T1'') = Inl RetryError
   \<and> fst (main_try_body ex_invocation_ok ex_env_insert_retry ex_world ''T1'') = Exception RetryError
   \<and> onsite (snd (on_tag_scan ex_env_insert_retry ex_caches ex_world ''T1'')) = onsite ex_world
   \<and> sheet_calls (snd (on_tag_scan ex_env_insert_retry ex_caches ex_world ''T1''))
       = sheet_calls ex_world
   \<and> ledger_write_fails ex_env_insert_fails ex_world ''T1''
   \<and> fst (on_tag_scan ex_env_insert_fails ex_caches ex_world ''T1'') = Inr False
   \<and> fst (main_try_body ex_invocation_ok ex_env_insert_fails ex_world ''T1'') = Completed"
proof -
  have a: "fst (on_tag_scan ex_env_insert_retry ex_caches ex_world ''T1'') = Inl RetryError"
    by (simp add: failed_scan_result[OF ex_insert_retry_write] ex_world_not_in)
       (simp add: ex_env_insert_retry_def)
  have b: "fst (on_tag_scan ex_env_insert_fails ex_caches ex_world ''T1'') = Inr False"
    by (simp add: failed_scan_result[OF ex_insert_fails_write] ex_world_not_in)
       (simp add: ex_env_insert_fails_def)
  have i: "initialize_sheets ex_invocation_ok = Inr ex_caches"
    by (simp add: initialize_sheets_def ex_invocation_ok_def ex_invocation_locked_def ex_caches_def)
  have f: "lock_acquired ex_invocation_ok" "db_connected ex_invocation_ok"
    "lower ''T1'' \<noteq> ''exit''"
    by (simp_all add: ex_invocation_ok_def ex_invocation_locked_def lower_def lower_char_def)
  have c: "fst (main_try_body ex_invocation_ok ex_env_insert_retry ex_world ''T1'') = Exception RetryError"
  proof -
    obtain w where "on_tag_scan ex_env_insert_retry ex_caches ex_world ''T1'' = (Inl RetryError, w)"
      using a by (cases "on_tag_scan ex_env_insert_retry ex_caches ex_world ''T1''") simp
    then show ?thesis by (simp add: main_try_body_def i f)
  qed
  have s: "\<not> is_after_cutoff (time_of (clock ex_env_insert_fails SweepCutoffNow))"
    by (simp add: is_after_cutoff_def ex_env_insert_fails_def time_of_def usec_per_day_def
        CUTOFF_TIME_def mk_time_def)
  have d: "fst (main_try_body ex_invocation_ok ex_env_insert_fails ex_world ''T1'') = Completed"
  proof -
    obtain w where "on_tag_scan ex_env_insert_fails ex_caches ex_world ''T1'' = (Inr False, w)"
      using b by (cases "on_tag_scan ex_env_insert_fails ex_caches ex_world ''T1''") simp
    then show ?thesis using s by (simp add: main_try_body_def i f auto_mark_out_all_users_def)
  qed
  note fr = failed_scan_frame[OF disjI2, OF ex_insert_retry_write, of ex_caches]
  from a b c d fr ex_insert_retry_write ex_insert_fails_write show ?thesis by blast
qed

subsection \<open>The cooldown registry\<close>

text \<open>
  Claim C6, as the code has it.  The entry of \<open>last_tap_times\<close> for the resolved name is
  set to the scan's time exactly when the three gates pass, whether or not the write to
  \<open>onsite\<close> that follows succeeds; a scan that a gate rejects leaves the registry
  unchanged.
\<close>

theorem registry_updated_when_gates_pass:
  "last_tap_times (snd (on_tag_scan e c s t)) =
     (case gates_passed e s t of
        Some n \<Rightarrow> (last_tap_times s)(n \<mapsto> clock e ScanNow)
      | None \<Rightarrow> last_tap_times s)"
proof (cases "gates_passed e s t")
  case None
  from gates_passed_None[OF None] show ?thesis
  proof
    assume rej: "rejected_by_gate e s t"
    obtain sg where "snd (get_assigned_name_and_tag e s t) = s\<lparr>sign := sg\<rparr>"
      using resolve_frame[of e s t] by auto
    then show ?thesis by (simp add: None scan_rejected[OF rej])
  next
    assume "isl (fst (get_assigned_name_and_tag e s t))"
    then obtain x where "fst (get_assigned_name_and_tag e s t) = Inl x" by (auto simp: isl_def)
    then show ?thesis by (simp add: None scan_resolve_raises)
  qed
next
  case (Some n)
  then show ?thesis by (simp add: scan_passed_fields(1))
qed

text \<open>
  Claim C6 as the specification words it fails: here the gates pass and the \<open>INSERT\<close>
  into \<open>onsite\<close> raises, so the scan returns \<open>False\<close>, and Alice's entry in the registry
  has been set all the same.
\<close>

theorem registry_changed_by_failed_write:
  "ledger_write_fails ex_env_insert_fails ex_world ''T1''
   \<and> fst (on_tag_scan ex_env_insert_fails ex_caches ex_world ''T1'') = Inr False
   \<and> last_tap_times ex_world ''Alice'' = None
   \<and> last_tap_times (snd (on_tag_scan ex_env_insert_fails ex_caches ex_world ''T1'')) ''Alice''
       = Some 25200000000"
proof -
  have "fst (on_tag_scan ex_env_insert_fails ex_caches ex_world ''T1'') = Inr False"
    by (rule scan_write_fails[OF ex_insert_fails_write])
       (simp_all add: ex_env_insert_fails_def)
  moreover have "last_tap_times ex_world ''Alice'' = None" by (simp add: ex_world_def)
  moreover have "last_tap_times (snd (on_tag_scan ex_env_insert_fails ex_caches ex_world ''T1'')) ''Alice''
       = Some 25200000000"
    by (simp add: scan_passed_fields(1)[OF ex_insert_fails_gates]) (simp add: ex_env_insert_fails_def)
  ultimately show ?thesis using ex_insert_fails_write by blast
qed

theorem registry_updated_witness:
  "last_tap_times (snd (on_tag_scan ex_env_insert_fails ex_caches ex_world ''T1''))
     = (last_tap_times ex_world)(''Alice'' \<mapsto> clock ex_env_insert_fails ScanNow)
   \<and> last_tap_times (snd (on_tag_scan ex_env_1700 ex_caches ex_world ''T1'')) = last_tap_times ex_world"
proof -
  have g: "gates_passed ex_env_1700 ex_world ''T1'' = None"
    using ex_1700_outside by (simp add: gates_passed_def ex_resolves ex_fails)
  show ?thesis
    using registry_updated_when_gates_pass[of ex_env_insert_fails ex_caches ex_world "''T1''"]
      registry_updated_when_gates_pass[of ex_env_1700 ex_caches ex_world "''T1''"]
    by (simp add: ex_insert_fails_gates g)
qed

subsection \<open>The assignment row of a first scan\<close>

text \<open>
  Claim C10.  For a tag that is in \<open>Staff\<close> and not yet in \<open>Sign\<close>, identity resolution
  (with its queries and its \<open>INSERT\<close> succeeding) adds the row to \<open>Sign\<close> before the
  cooldown and time-window gates are looked at: the row is there after the scan, also
  when one of these two gates then rejects it.
\<close>

theorem assignment_created_before_gates:
  assumes "map_of (sign s) t = None" and "staff_by_tag (staff s) t = Some st"
    and "\<not> fails e SelSign" and "\<not> fails e SelStaffName" and "\<not> fails e InsSign"
  shows "get_assigned_name_and_tag e s t =
           (Inr (Some (s_Name st)), s\<lparr>sign := sign s @ [(t, s_Name st)]\<rparr>)
       \<and> sign (snd (on_tag_scan e c s t)) = sign s @ [(t, s_Name st)]
       \<and> (\<not> check_cooldown (clock e CooldownNow) (last_tap_times s) (s_Name st)
            \<or> \<not> is_signin_allowed (time_of (clock e ScanNow)) \<longrightarrow>
          fst (on_tag_scan e c s t) = Inr False
          \<and> onsite (snd (on_tag_scan e c s t)) = onsite s)"
proof -
  have R: "get_assigned_name_and_tag e s t =
           (Inr (Some (s_Name st)), s\<lparr>sign := sign s @ [(t, s_Name st)]\<rparr>)"
    using assms
    by (simp add: get_assigned_name_and_tag_def no_fault)
  have S: "sign (snd (on_tag_scan e c s t)) = sign s @ [(t, s_Name st)]"
  proof (cases "gates_passed e s t")
    case None
    with R have "rejected_by_gate e s t" using gates_passed_None[OF None] by simp
    then show ?thesis by (simp add: scan_rejected R)
  next
    case (Some n)
    then show ?thesis by (simp add: scan_passed_fields(2) R)
  qed
  have G: "fst (on_tag_scan e c s t) = Inr False \<and> onsite (snd (on_tag_scan e c s t)) = onsite s"
    if "\<not> check_cooldown (clock e CooldownNow) (last_tap_times s) (s_Name st)
            \<or> \<not> is_signin_allowed (time_of (clock e ScanNow))"
  proof -
    from that R have "rejected_by_gate e s t" by (auto simp: rejected_by_gate_def)
    then show ?thesis by (simp add: scan_rejected R)
  qed
  from R S G show ?thesis by blast
qed

theorem assignment_created_witness:
  "sign ex_world = []
   \<and> \<not> is_signin_allowed (time_of (clock ex_env_1700 ScanNow))
   \<and> sign (snd (on_tag_scan ex_env_1700 ex_caches ex_world ''T1'')) = [(''T1'', ''Alice'')]
   \<and> fst (on_tag_scan ex_env_1700 ex_caches ex_world ''T1'') = Inr False
   \<and> onsite (snd (on_tag_scan ex_env_1700 ex_caches ex_world ''T1'')) = onsite ex_world"
proof -
  have h1: "map_of (sign ex_world) ''T1'' = None" by (simp add: ex_world_def)
  have h2: "staff_by_tag (staff ex_world) ''T1'' =
      Some \<lparr>s_tag_id = ''T1'', s_Name = ''Alice'', s_department = ''Ops''\<rparr>"
    by (simp add: ex_world_def staff_by_tag_def)
  have h3: "\<not> fails ex_env_1700 SelSign" "\<not> fails ex_env_1700 SelStaffName"
    "\<not> fails ex_env_1700 InsSign" by (simp_all add: ex_fails)
  have s: "sign ex_world = []" by (simp add: ex_world_def)
  from assignment_created_before_gates[OF h1 h2 h3, of ex_caches] ex_1700_outside s
  show ?thesis by simp
qed

section \<open>The state and the result after a scan\<close>













subsection \<open>Exit codes\<close>

text \<open>
  Once the module-level checks have passed and a tag was given, the script always ends in
  the \<open>finally\<close> clause, whose \<open>sys.exit(0)\<close> decides the exit code.
\<close>

lemma exit_code_zero_past_setup:
  assumes "config_present iv" "lock_dir_ok iv" "sheets_auth_ok iv" "strip (tag_text iv) \<noteq> []"
  shows "process_exit_code iv e s = 0"
  using assms
  by (simp add: process_exit_code_def script_def Let_def finally_sys_exit_def exit_code_def
      split: prod.splits)

lemma ex_strip_T1: "strip ''T1'' = ''T1''"
  by (simp add: strip_def is_space_def)

text \<open>
  Claim C9.  The specification gives exit code 1 for a lock that cannot be acquired, for a
  failed database connection and for a monthly sheet without today's column.  The script
  calls \<open>sys.exit(1)\<close> in each of these cases, inside the \<open>try\<close> statement whose \<open>finally\<close>
  clause then calls \<open>sys.exit(0)\<close>: the process ends with code 0.
\<close>

theorem exit_code_zero_after_failed_setup:
  "fst (main_try_body ex_invocation_locked ex_env_0700 ex_world ''T1'') = SystemExit 1
   \<and> process_exit_code ex_invocation_locked ex_env_0700 ex_world = 0
   \<and> fst (main_try_body ex_invocation_no_db ex_env_0700 ex_world ''T1'') = SystemExit 1
   \<and> process_exit_code ex_invocation_no_db ex_env_0700 ex_world = 0
   \<and> fst (main_try_body ex_invocation_no_column ex_env_0700 ex_world ''T1'') = SystemExit 1
   \<and> process_exit_code ex_invocation_no_column ex_env_0700 ex_world = 0"
proof -
  have a: "fst (main_try_body ex_invocation_locked ex_env_0700 ex_world ''T1'') = SystemExit 1"
    by (simp add: main_try_body_def ex_invocation_locked_def)
  have b: "fst (main_try_body ex_invocation_no_db ex_env_0700 ex_world ''T1'') = SystemExit 1"
    by (simp add: main_try_body_def ex_invocation_no_db_def ex_invocation_locked_def)
  have c: "fst (main_try_body ex_invocation_no_column ex_env_0700 ex_world ''T1'') = SystemExit 1"
    by (simp add: main_try_body_def ex_invocation_no_column_def ex_invocation_locked_def
        initialize_sheets_def)
  have t: "tag_text ex_invocation_locked = ''T1''" "tag_text ex_invocation_no_db = ''T1''"
    "tag_text ex_invocation_no_column = ''T1''"
    by (simp_all add: ex_invocation_no_column_def ex_invocation_no_db_def ex_invocation_locked_def)
  have d: "process_exit_code ex_invocation_locked ex_env_0700 ex_world = 0"
    by (simp add: process_exit_code_def script_def t ex_strip_T1 Let_def finally_sys_exit_def
        exit_code_def split: prod.splits) (simp add: ex_invocation_locked_def)
  have e: "process_exit_code ex_invocation_no_db ex_env_0700 ex_world = 0"
    by (simp add: process_exit_code_def script_def t ex_strip_T1 Let_def finally_sys_exit_def
        exit_code_def split: prod.splits) (simp add: ex_invocation_no_db_def ex_invocation_locked_def)
  have f: "process_exit_code ex_invocation_no_column ex_env_0700 ex_world = 0"
    by (simp add: process_exit_code_def script_def t ex_strip_T1 Let_def finally_sys_exit_def
        exit_code_def split: prod.splits) (simp add: ex_invocation_no_column_def ex_invocation_locked_def)
  from a b c d e f show ?thesis by blast
qed

subsection \<open>The monthly sheet\<close>







section \<open>The sweep\<close>

lemma close_rows_empty: "close_rows e {} db = db"
  by (simp add: close_rows_def)

lemma mark_out_close_rows:
  "mark_out (close_rows e I db) i (clock e (SweepStampNow i)) = close_rows e (insert i I) db"
  by (simp add: mark_out_def close_rows_def closed_at_def)

text \<open>The loop when none of its calls fails, and when one does.\<close>

lemma sweep_loop_ok:
  assumes "\<forall>u \<in> set us. \<not> fails e (SweepResolve (onsite_id u))
             \<and> (resolves st u \<longrightarrow> \<not> fails e (SweepUpdate (onsite_id u)))"
  shows "sweep_loop e st rm ns us (close_rows e I db, ups) =
     Inr (close_rows e (I \<union> onsite_id ` {u \<in> set us. resolves st u}) db,
          ups @ concat (map (staged_for st rm ns) (filter (resolves st) us)))"
  using assms
proof (induction us arbitrary: I ups)
  case Nil
  then show ?case by simp
next
  case (Cons u us)
  have r: "mysql_db_call e (SweepResolve (onsite_id u)) = None"
    using Cons.prems by (simp add: no_fault)
  have tl: "\<forall>u \<in> set us. \<not> fails e (SweepResolve (onsite_id u))
             \<and> (resolves st u \<longrightarrow> \<not> fails e (SweepUpdate (onsite_id u)))"
    using Cons.prems by simp
  show ?case
  proof (cases "resolves st u")
    case False
    then have "sweep_loop e st rm ns (u # us) (close_rows e I db, ups)
        = sweep_loop e st rm ns us (close_rows e I db, ups)"
      using r by (simp add: resolves_def split: option.splits)
    moreover have "{x \<in> set (u # us). resolves st x} = {x \<in> set us. resolves st x}"
      using False by auto
    ultimately show ?thesis using False by (simp add: Cons.IH[OF tl])
  next
    case True
    then obtain n where n: "get_staff_name_by_tag_id st (tag_id u) = Some n" "n \<noteq> []"
      by (auto simp: resolves_def split: option.splits)
    have w: "mysql_db_call e (SweepUpdate (onsite_id u)) = None"
      using Cons.prems True by (simp add: no_fault)
    have "sweep_loop e st rm ns (u # us) (close_rows e I db, ups)
        = sweep_loop e st rm ns us (close_rows e (insert (onsite_id u) I) db, ups @ staged_out rm n ns)"
      using r w n by (simp add: mark_out_close_rows)
    moreover have "insert (onsite_id u) I \<union> onsite_id ` {x \<in> set us. resolves st x}
        = I \<union> onsite_id ` {x \<in> set (u # us). resolves st x}"
      using True by auto
    moreover have "staged_for st rm ns u = staged_out rm n ns"
      using n by (simp add: staged_for_def)
    ultimately show ?thesis using True by (simp add: Cons.IH[OF tl])
  qed
qed

lemma sweep_loop_fails:
  assumes "\<exists>u \<in> set us. fails e (SweepResolve (onsite_id u))
             \<or> (resolves st u \<and> fails e (SweepUpdate (onsite_id u)))"
  shows "isl (sweep_loop e st rm ns us acc)"
  using assms
proof (induction us arbitrary: acc)
  case Nil
  then show ?case by simp
next
  case (Cons u us)
  obtain db ups where acc: "acc = (db, ups)" by (cases acc)
  show ?case
  proof (cases "fails e (SweepResolve (onsite_id u))")
    case True
    then obtain x where "mysql_db_call e (SweepResolve (onsite_id u)) = Some x"
      using fails_call(1)[of e "SweepResolve (onsite_id u)"] by auto
    then show ?thesis by (simp add: acc)
  next
    case False
    then have r: "mysql_db_call e (SweepResolve (onsite_id u)) = None" by (simp add: no_fault)
    show ?thesis
    proof (cases "resolves st u")
      case nores: False
      with False Cons.prems have tl: "\<exists>u \<in> set us. fails e (SweepResolve (onsite_id u))
             \<or> (resolves st u \<and> fails e (SweepUpdate (onsite_id u)))" by auto
      have "sweep_loop e st rm ns (u # us) acc = sweep_loop e st rm ns us acc"
        using r nores by (simp add: acc resolves_def split: option.splits)
      with Cons.IH[OF tl] show ?thesis by simp
    next
      case res: True
      then obtain n where n: "get_staff_name_by_tag_id st (tag_id u) = Some n" "n \<noteq> []"
        by (auto simp: resolves_def split: option.splits)
      show ?thesis
      proof (cases "fails e (SweepUpdate (onsite_id u))")
        case True
        then obtain x where "mysql_db_call e (SweepUpdate (onsite_id u)) = Some x"
          using fails_call(1)[of e "SweepUpdate (onsite_id u)"] by auto
        then show ?thesis using r n by (simp add: acc)
      next
        case noupd: False
        with False Cons.prems have tl: "\<exists>u \<in> set us. fails e (SweepResolve (onsite_id u))
             \<or> (resolves st u \<and> fails e (SweepUpdate (onsite_id u)))" by auto
        have "sweep_loop e st rm ns (u # us) acc = sweep_loop e st rm ns us
                (mark_out db (onsite_id u) (clock e (SweepStampNow (onsite_id u))),
                 ups @ staged_out rm n ns)"
          using r n noupd by (simp add: acc no_fault)
        with Cons.IH[OF tl] show ?thesis by simp
      qed
    qed
  qed
qed

lemma users_filter: "users_to_mark_out e rows =
   filter (\<lambda>r. Active r = 1 \<and> in_window (today_start (clock e SweepStartNow)) (today_end (clock e SweepEndNow)) r) rows"
  by (simp add: users_to_mark_out_def)

lemma swept_users:
  "{u \<in> set (users_to_mark_out e db). resolves st u} = {r \<in> set db. swept e st r}"
  by (auto simp: users_filter swept_def)

lemma close_rows_swept:
  assumes "distinct (map onsite_id db)"
  shows "close_rows e (onsite_id ` {r \<in> set db. swept e st r}) db =
     map (\<lambda>r. if swept e st r then closed_at (clock e (SweepStampNow (onsite_id r))) r else r) db"
proof -
  have inj: "inj_on onsite_id (set db)" using assms by (simp add: distinct_map)
  have "(onsite_id r \<in> onsite_id ` {u \<in> set db. swept e st u}) = swept e st r"
    if "r \<in> set db" for r
  proof
    assume "onsite_id r \<in> onsite_id ` {u \<in> set db. swept e st u}"
    then obtain u where u: "u \<in> set db" "swept e st u" "onsite_id u = onsite_id r"
      by auto
    with inj that have "u = r" by (auto dest: inj_onD)
    with u show "swept e st r" by simp
  next
    assume "swept e st r"
    with that show "onsite_id r \<in> onsite_id ` {u \<in> set db. swept e st u}" by auto
  qed
  then show ?thesis unfolding close_rows_def by (intro map_cong) auto
qed

lemma staged_swept:
  "concat (map f (filter (resolves st) (users_to_mark_out e db))) = concat (map f (filter (swept e st) db))"
proof -
  have "filter (resolves st) (users_to_mark_out e db) = filter (swept e st) db"
    by (auto simp: users_filter swept_def intro: filter_cong)
  then show ?thesis by simp
qed

text \<open>The transaction: it ends early when one of its calls fails, and otherwise yields
  the table with every swept row closed.\<close>

lemma sweep_fault_in_loop:
  "sweep_call_fails e (staff s) (onsite s) \<longleftrightarrow>
     fails e SweepBegin
     \<or> (\<exists>u \<in> set (users_to_mark_out e (onsite s)).
           fails e (SweepResolve (onsite_id u))
           \<or> (resolves (staff s) u \<and> fails e (SweepUpdate (onsite_id u))))
     \<or> fails e SweepCommit"
  by (auto simp: sweep_call_fails_def users_filter)

lemma sweep_transaction_fails:
  assumes "sweep_call_fails e (staff s) (onsite s)"
  shows "isl (sweep_transaction e c s (users_to_mark_out e (onsite s)) ns)"
proof (cases "fails e SweepBegin")
  case True
  then show ?thesis by (simp add: sweep_transaction_def)
next
  case False
  show ?thesis
  proof (cases "\<exists>u \<in> set (users_to_mark_out e (onsite s)).
           fails e (SweepResolve (onsite_id u))
           \<or> (resolves (staff s) u \<and> fails e (SweepUpdate (onsite_id u)))")
    case True
    from sweep_loop_fails[OF True, of "staff_name_to_daily_row_index c" ns "(onsite s, [])"]
    show ?thesis using False by (auto simp: sweep_transaction_def isl_def)
  next
    case noloop: False
    with False assms have "fails e SweepCommit" by (simp add: sweep_fault_in_loop)
    then show ?thesis
      using False by (simp add: sweep_transaction_def split: sum.splits prod.splits)
  qed
qed

lemma sweep_transaction_succeeds:
  assumes "\<not> sweep_call_fails e (staff s) (onsite s)"
  shows "sweep_transaction e c s (users_to_mark_out e (onsite s)) ns =
     Inr (close_rows e (onsite_id ` {r \<in> set (onsite s). swept e (staff s) r}) (onsite s),
          concat (map (staged_for (staff s) (staff_name_to_daily_row_index c) ns)
            (filter (swept e (staff s)) (onsite s))))"
proof -
  from assms have nb: "\<not> fails e SweepBegin" and nc: "\<not> fails e SweepCommit"
    and nl: "\<forall>u \<in> set (users_to_mark_out e (onsite s)). \<not> fails e (SweepResolve (onsite_id u))
             \<and> (resolves (staff s) u \<longrightarrow> \<not> fails e (SweepUpdate (onsite_id u)))"
    by (auto simp: sweep_fault_in_loop)
  have "sweep_loop e (staff s) (staff_name_to_daily_row_index c) ns (users_to_mark_out e (onsite s))
          (onsite s, []) =
        Inr (close_rows e (onsite_id ` {u \<in> set (users_to_mark_out e (onsite s)). resolves (staff s) u}) (onsite s),
             concat (map (staged_for (staff s) (staff_name_to_daily_row_index c) ns)
               (filter (resolves (staff s)) (users_to_mark_out e (onsite s)))))"
    using sweep_loop_ok[OF nl, of "staff_name_to_daily_row_index c" ns "{}" "onsite s" "[]"]
    by (simp add: close_rows_empty)
  then show ?thesis
    using nb nc by (simp add: sweep_transaction_def swept_users staged_swept)
qed

lemma sweep_transaction_ok:
  assumes "distinct (map onsite_id (onsite s))"
    and "\<not> fails e SweepBegin" and "\<forall>i. \<not> fails e (SweepResolve i)"
    and "\<forall>i. \<not> fails e (SweepUpdate i)" and "\<not> fails e SweepCommit"
  shows "sweep_transaction e c s (users_to_mark_out e (onsite s)) ns =
     Inr (map (\<lambda>r. if swept e (staff s) r then closed_at (clock e (SweepStampNow (onsite_id r))) r else r)
            (onsite s),
          concat (map (staged_for (staff s) (staff_name_to_daily_row_index c) ns)
            (filter (swept e (staff s)) (onsite s))))"
proof -
  have "\<not> sweep_call_fails e (staff s) (onsite s)"
    using assms(2-5) by (simp add: sweep_call_fails_def)
  from sweep_transaction_succeeds[OF this] show ?thesis
    by (simp add: close_rows_swept[OF assms(1)])
qed

lemma no_users_no_swept:
  assumes "users_to_mark_out e db = []"
  shows "map (\<lambda>r. if swept e st r then f r else r) db = db"
    and "filter (swept e st) db = []"
proof -
  have "\<not> swept e st r" if "r \<in> set db" for r
  proof
    assume "swept e st r"
    with that have "r \<in> set (users_to_mark_out e db)" by (simp add: swept_def users_filter)
    with assms show False by simp
  qed
  then show "map (\<lambda>r. if swept e st r then f r else r) db = db" "filter (swept e st) db = []"
    by (simp_all add: map_idI)
qed

lemma sweep_after:
  assumes "is_after_cutoff (time_of (clock e SweepCutoffNow))" and "\<not> fails e SweepSelect"
    and "users_to_mark_out e (onsite s) \<noteq> []"
    and "sweep_transaction e c s (users_to_mark_out e (onsite s))
           (strftime_HMS (clock e SweepStrNow)) = Inr (db, ups)"
  shows "onsite (snd (auto_mark_out_all_users e c s)) = db
      \<and> sheet_calls (snd (auto_mark_out_all_users e c s))
          = sheet_calls s @ (if ups = [] then [] else [DailyBatch ups])
      \<and> (\<not> fails e SweepBatchUpdate \<longrightarrow>
           daily_sheet (snd (auto_mark_out_all_users e c s)) = batch_update (daily_sheet s) ups)"
  using assms
  by (simp add: auto_mark_out_all_users_def Let_def batch_update_def no_fault
      split: option.splits)

text \<open>The state after the sweep, by how the transaction ended.\<close>

lemma sweep_rolled_back:
  assumes "isl (sweep_transaction e c s (users_to_mark_out e (onsite s))
                  (strftime_HMS (clock e SweepStrNow)))"
  shows "snd (auto_mark_out_all_users e c s) = s"
proof -
  from assms obtain x where "sweep_transaction e c s (users_to_mark_out e (onsite s))
                  (strftime_HMS (clock e SweepStrNow)) = Inl x" by (auto simp: isl_def)
  then show ?thesis
    by (simp add: auto_mark_out_all_users_def Let_def split: option.splits)
qed

lemma sweep_committed:
  assumes "sweep_transaction e c s (users_to_mark_out e (onsite s))
             (strftime_HMS (clock e SweepStrNow)) = Inr (db, ups)"
  shows "snd (auto_mark_out_all_users e c s) = s \<or>
     (onsite (snd (auto_mark_out_all_users e c s)) = db \<and>
      (sheet_calls (snd (auto_mark_out_all_users e c s)) = sheet_calls s \<or>
       sheet_calls (snd (auto_mark_out_all_users e c s)) = sheet_calls s @ [DailyBatch ups]))"
  using assms
  by (simp add: auto_mark_out_all_users_def Let_def split: option.splits)

lemma ex_1700_after: "is_after_cutoff (time_of (clock ex_env_1700 SweepCutoffNow))"
  by (simp add: is_after_cutoff_def ex_env_1700_def time_of_def usec_per_day_def CUTOFF_TIME_def
      mk_time_def)

lemma ex_0700_before: "\<not> is_after_cutoff (time_of (clock ex_env_0700 SweepCutoffNow))"
  by (simp add: is_after_cutoff_def ex_env_0700_def time_of_def usec_per_day_def CUTOFF_TIME_def
      mk_time_def)

lemma ex_in_onsite: "onsite ex_world_in = [ex_row]"
  by (simp add: ex_world_in_def)

lemma ex_row_closed: "closed_at (clock ex_env_1700 (SweepStampNow (onsite_id ex_row))) ex_row =
   \<lparr>onsite_id = 1, tag_id = ''T1'', scan_date = 25200000000, Active = 0,
    sign_out_date = Some 61200000000\<rparr>"
  by (simp add: closed_at_def ex_row_def ex_env_1700_def)

lemma ex_in_swept:
  "swept ex_env_1700 (staff ex_world_in) ex_row"
  by (simp add: swept_def resolves_def get_staff_name_by_tag_id_def staff_by_tag_def in_window_def
      today_start_def today_end_def combine_def date_of_def time_min_def time_max_def
      usec_per_day_def ex_world_in_def ex_row_def ex_world_def ex_env_1700_def)

lemma ex_in_staged:
  "staged_for (staff ex_world_in) (staff_name_to_daily_row_index ex_caches)
     (strftime_HMS (clock ex_env_1700 SweepStrNow)) ex_row
   = [((2, 3), ''OUT''), ((2, 4), ''17:00:00'')]"
  by (simp add: staged_for_def staged_out_def get_staff_name_by_tag_id_def staff_by_tag_def
      ex_world_in_def ex_row_def ex_world_def ex_caches_def ex_env_1700_def strftime_HMS_def two_digits_def
      time_of_def usec_per_day_def)

subsection \<open>What the sweep closes\<close>

text \<open>
  Claim C7 as the specification words it fails: the sweep at 17:00 selects the open record
  of tag T1, finds no row for the tag in \<open>Staff\<close>, skips it, and the record is still
  open afterwards; nothing is staged for the daily sheet.
\<close>

theorem sweep_skips_unresolved_row:
  "is_after_cutoff (time_of (clock ex_env_1700 SweepCutoffNow))
   \<and> map onsite_id (users_to_mark_out ex_env_1700 (onsite ex_world_orphan)) = [1]
   \<and> map Active (onsite ex_world_orphan) = [1]
   \<and> map onsite_id (onsite (snd (auto_mark_out_all_users ex_env_1700 ex_caches ex_world_orphan))) = [1]
   \<and> map Active (onsite (snd (auto_mark_out_all_users ex_env_1700 ex_caches ex_world_orphan))) = [1]
   \<and> map sign_out_date (onsite (snd (auto_mark_out_all_users ex_env_1700 ex_caches ex_world_orphan)))
       = [None]
   \<and> sheet_calls (snd (auto_mark_out_all_users ex_env_1700 ex_caches ex_world_orphan)) = []"
  by code_simp

text \<open>
  Claim C7, as the code has it.  With \<open>onsite_id\<close> a key of the table and no database call
  of the sweep raising: past \<open>CUTOFF_TIME\<close> the sweep closes exactly the rows with
  \<open>Active = 1\<close> inside the window whose tag has a row in \<open>Staff\<close> with a non-empty
  name, setting \<open>Active\<close> to 0 and \<open>sign_out_date\<close> to the clock reading taken for the row,
  and leaves every other row as it is; it sends one batch to the daily sheet holding, for
  each closed row whose name has a cached row there, the status \<open>OUT\<close> and the time.  At
  or before \<open>CUTOFF_TIME\<close> it changes nothing.
\<close>

theorem sweep_closes_resolved_rows:
  assumes "distinct (map onsite_id (onsite s))"
    and "\<not> fails e SweepSelect" and "\<not> fails e SweepBegin"
    and "\<forall>i. \<not> fails e (SweepResolve i)" and "\<forall>i. \<not> fails e (SweepUpdate i)"
    and "\<not> fails e SweepCommit"
  shows "(is_after_cutoff (time_of (clock e SweepCutoffNow)) \<longrightarrow>
           (let s' = snd (auto_mark_out_all_users e c s);
                ups = concat (map (staged_for (staff s) (staff_name_to_daily_row_index c)
                                     (strftime_HMS (clock e SweepStrNow)))
                               (filter (swept e (staff s)) (onsite s)))
            in onsite s' =
                 map (\<lambda>r. if swept e (staff s) r
                           then closed_at (clock e (SweepStampNow (onsite_id r))) r else r) (onsite s)
               \<and> sheet_calls s' = sheet_calls s @ (if ups = [] then [] else [DailyBatch ups])
               \<and> (\<not> fails e SweepBatchUpdate \<longrightarrow> daily_sheet s' = batch_update (daily_sheet s) ups)))
       \<and> (\<not> is_after_cutoff (time_of (clock e SweepCutoffNow)) \<longrightarrow>
            snd (auto_mark_out_all_users e c s) = s)"
proof -
  let ?ups = "concat (map (staged_for (staff s) (staff_name_to_daily_row_index c)
                                     (strftime_HMS (clock e SweepStrNow)))
                               (filter (swept e (staff s)) (onsite s)))"
  let ?db = "map (\<lambda>r. if swept e (staff s) r
                           then closed_at (clock e (SweepStampNow (onsite_id r))) r else r) (onsite s)"
  have before: "snd (auto_mark_out_all_users e c s) = s"
    if "\<not> is_after_cutoff (time_of (clock e SweepCutoffNow))"
    using that by (simp add: auto_mark_out_all_users_def)
  have after: "onsite (snd (auto_mark_out_all_users e c s)) = ?db
      \<and> sheet_calls (snd (auto_mark_out_all_users e c s))
          = sheet_calls s @ (if ?ups = [] then [] else [DailyBatch ?ups])
      \<and> (\<not> fails e SweepBatchUpdate \<longrightarrow>
           daily_sheet (snd (auto_mark_out_all_users e c s)) = batch_update (daily_sheet s) ?ups)"
    if ac: "is_after_cutoff (time_of (clock e SweepCutoffNow))"
  proof (cases "users_to_mark_out e (onsite s) = []")
    case True
    have U: "snd (auto_mark_out_all_users e c s) = s"
      using True assms(2) by (simp add: auto_mark_out_all_users_def no_fault)
    have F: "filter (swept e (staff s)) (onsite s) = []"
      by (rule no_users_no_swept(2)[OF True])
    have D: "?db = onsite s"
      by (rule no_users_no_swept(1)[OF True])
    show ?thesis by (simp add: U F D batch_update_def)
  next
    case False
    have T: "sweep_transaction e c s (users_to_mark_out e (onsite s))
        (strftime_HMS (clock e SweepStrNow)) = Inr (?db, ?ups)"
      by (rule sweep_transaction_ok[OF assms(1,3,4,5,6)])
    show ?thesis
      by (rule sweep_after[OF ac assms(2) False T])
  qed
  from before after show ?thesis unfolding Let_def by blast
qed

theorem sweep_closes_witness:
  "is_after_cutoff (time_of (clock ex_env_1700 SweepCutoffNow))
   \<and> onsite (snd (auto_mark_out_all_users ex_env_1700 ex_caches ex_world_in)) =
       [\<lparr>onsite_id = 1, tag_id = ''T1'', scan_date = 25200000000, Active = 0,
         sign_out_date = Some 61200000000\<rparr>]
   \<and> sheet_calls (snd (auto_mark_out_all_users ex_env_1700 ex_caches ex_world_in)) =
       [DailyBatch [((2, 3), ''OUT''), ((2, 4), ''17:00:00'')]]
   \<and> \<not> is_after_cutoff (time_of (clock ex_env_0700 SweepCutoffNow))
   \<and> snd (auto_mark_out_all_users ex_env_0700 ex_caches ex_world_in) = ex_world_in"
proof -
  have d: "distinct (map onsite_id (onsite ex_world_in))" by (simp add: ex_in_onsite)
  have sc: "sheet_calls ex_world_in = []" by (simp add: ex_world_in_def ex_world_def)
  have f: "\<not> fails ex_env_1700 SweepSelect" "\<not> fails ex_env_1700 SweepBegin"
    "\<forall>i. \<not> fails ex_env_1700 (SweepResolve i)" "\<forall>i. \<not> fails ex_env_1700 (SweepUpdate i)"
    "\<not> fails ex_env_1700 SweepCommit"
    by (simp_all add: ex_fails)
  have g: "\<not> fails ex_env_0700 SweepSelect" "\<not> fails ex_env_0700 SweepBegin"
    "\<forall>i. \<not> fails ex_env_0700 (SweepResolve i)" "\<forall>i. \<not> fails ex_env_0700 (SweepUpdate i)"
    "\<not> fails ex_env_0700 SweepCommit"
    by (simp_all add: ex_fails)
  have a: "onsite (snd (auto_mark_out_all_users ex_env_1700 ex_caches ex_world_in)) =
       [\<lparr>onsite_id = 1, tag_id = ''T1'', scan_date = 25200000000, Active = 0,
         sign_out_date = Some 61200000000\<rparr>]
     \<and> sheet_calls (snd (auto_mark_out_all_users ex_env_1700 ex_caches ex_world_in)) =
       [DailyBatch [((2, 3), ''OUT''), ((2, 4), ''17:00:00'')]]"
    using sweep_closes_resolved_rows[OF d f, of ex_caches, THEN conjunct1, rule_format,
        OF ex_1700_after]
    by (simp add: Let_def ex_in_onsite ex_in_swept ex_in_staged ex_row_closed sc)
  have b: "snd (auto_mark_out_all_users ex_env_0700 ex_caches ex_world_in) = ex_world_in"
    using sweep_closes_resolved_rows[OF d g, of ex_caches, THEN conjunct2, rule_format,
        OF ex_0700_before] .
  from a b ex_1700_after ex_0700_before show ?thesis by blast
qed

subsection \<open>The sweep's transaction\<close>

lemma ex_clock:
  "clock ex_env_update_fails x = 61200000000" "clock ex_env_update_retry x = 61200000000"
  "clock ex_env_commit_fails x = 61200000000"
  by (simp_all add: ex_env_update_fails_def ex_env_update_retry_def ex_env_commit_fails_def)

lemma ex_update_fails_call:
  "sweep_call_fails ex_env_update_fails (staff ex_world_two) (onsite ex_world_two)"
  "sweep_call_fails ex_env_update_retry (staff ex_world_two) (onsite ex_world_two)"
  "sweep_call_fails ex_env_commit_fails (staff ex_world_two) (onsite ex_world_two)"
  by (simp_all add: sweep_call_fails_def ex_fails ex_clock resolves_def
      get_staff_name_by_tag_id_def staff_by_tag_def in_window_def today_start_def today_end_def
      combine_def date_of_def time_min_def time_max_def usec_per_day_def ex_world_two_def
      ex_world_def ex_row_def ex_row_bob_def)

lemma ex_two_sweep_calls:
  "sheet_calls (snd (auto_mark_out_all_users ex_env_1700 ex_caches ex_world_two))
     \<noteq> sheet_calls ex_world_two"
  by code_simp

lemma ex_two_swept:
  "map Active (onsite ex_world_two) = [1, 1]"
  "map Active (onsite (snd (auto_mark_out_all_users ex_env_1700 ex_caches ex_world_two))) = [0, 0]"
  by code_simp+

text \<open>
  Claim C8.  When a call of the sweep's transaction fails (\<open>start_transaction\<close>, the name
  lookup or the \<open>UPDATE\<close> for a selected record, \<open>commit\<close>), in either way a call can
  fail, the state after the sweep is the state before it: no update of the sweep is in the
  table and no call on the daily sheet was made.  The table after a sweep is either the
  table before it or the table with every one of the sweep's updates applied, never
  something in between; and a call on the daily sheet is made only when no call of the
  transaction failed and the table holds all the updates.
\<close>

theorem sweep_all_or_nothing:
  "(let s' = snd (auto_mark_out_all_users e c s);
        all_closed = close_rows e (onsite_id ` {r \<in> set (onsite s). swept e (staff s) r}) (onsite s)
    in (sweep_call_fails e (staff s) (onsite s) \<longrightarrow> s' = s)
     \<and> (onsite s' = onsite s \<or> onsite s' = all_closed)
     \<and> (sheet_calls s' \<noteq> sheet_calls s \<longrightarrow>
          \<not> sweep_call_fails e (staff s) (onsite s) \<and> onsite s' = all_closed))"
proof -
  let ?txn = "sweep_transaction e c s (users_to_mark_out e (onsite s))
                (strftime_HMS (clock e SweepStrNow))"
  let ?s' = "snd (auto_mark_out_all_users e c s)"
  let ?all = "close_rows e (onsite_id ` {r \<in> set (onsite s). swept e (staff s) r}) (onsite s)"
  have failed: "?s' = s" if "sweep_call_fails e (staff s) (onsite s)"
    by (rule sweep_rolled_back[OF sweep_transaction_fails[OF that]])
  have whole: "?s' = s \<or> (onsite ?s' = ?all \<and> \<not> sweep_call_fails e (staff s) (onsite s))"
  proof (cases "sweep_call_fails e (staff s) (onsite s)")
    case True
    then show ?thesis by (simp add: failed)
  next
    case False
    from sweep_committed[OF sweep_transaction_succeeds[OF False]] False
    show ?thesis by blast
  qed
  have a: "sweep_call_fails e (staff s) (onsite s) \<longrightarrow> ?s' = s"
    using failed by blast
  have b: "onsite ?s' = onsite s \<or> onsite ?s' = ?all"
    using whole by auto
  have c: "sheet_calls ?s' \<noteq> sheet_calls s \<longrightarrow>
          \<not> sweep_call_fails e (staff s) (onsite s) \<and> onsite ?s' = ?all"
    using whole by auto
  from a b c show ?thesis unfolding Let_def by blast
qed

theorem sweep_all_or_nothing_witness:
  "sweep_call_fails ex_env_update_fails (staff ex_world_two) (onsite ex_world_two)
   \<and> snd (auto_mark_out_all_users ex_env_update_fails ex_caches ex_world_two) = ex_world_two
   \<and> sweep_call_fails ex_env_update_retry (staff ex_world_two) (onsite ex_world_two)
   \<and> snd (auto_mark_out_all_users ex_env_update_retry ex_caches ex_world_two) = ex_world_two
   \<and> sweep_call_fails ex_env_commit_fails (staff ex_world_two) (onsite ex_world_two)
   \<and> snd (auto_mark_out_all_users ex_env_commit_fails ex_caches ex_world_two) = ex_world_two
   \<and> sheet_calls (snd (auto_mark_out_all_users ex_env_1700 ex_caches ex_world_two))
       \<noteq> sheet_calls ex_world_two
   \<and> \<not> sweep_call_fails ex_env_1700 (staff ex_world_two) (onsite ex_world_two)
   \<and> onsite (snd (auto_mark_out_all_users ex_env_1700 ex_caches ex_world_two)) =
       close_rows ex_env_1700
         (onsite_id ` {r \<in> set (onsite ex_world_two). swept ex_env_1700 (staff ex_world_two) r})
         (onsite ex_world_two)
   \<and> map Active (onsite ex_world_two) = [1, 1]
   \<and> map Active (onsite (snd (auto_mark_out_all_users ex_env_1700 ex_caches ex_world_two))) = [0, 0]"
proof -
  note T = sweep_all_or_nothing[unfolded Let_def]
  have a: "snd (auto_mark_out_all_users ex_env_update_fails ex_caches ex_world_two) = ex_world_two"
    using T[of ex_env_update_fails ex_world_two ex_caches, THEN conjunct1, rule_format,
        OF ex_update_fails_call(1)] .
  have b: "snd (auto_mark_out_all_users ex_env_update_retry ex_caches ex_world_two) = ex_world_two"
    using T[of ex_env_update_retry ex_world_two ex_caches, THEN conjunct1, rule_format,
        OF ex_update_fails_call(2)] .
  have c: "snd (auto_mark_out_all_users ex_env_commit_fails ex_caches ex_world_two) = ex_world_two"
    using T[of ex_env_commit_fails ex_world_two ex_caches, THEN conjunct1, rule_format,
        OF ex_update_fails_call(3)] .
  note d = T[of ex_env_1700 ex_world_two ex_caches, THEN conjunct2, THEN conjunct2, rule_format,
        OF ex_two_sweep_calls]
  from a b c d ex_update_fails_call ex_two_sweep_calls ex_two_swept show ?thesis by blast
qed

section \<open>The ledger under accepted scans\<close>


























subsection \<open>The query and the specification's words\<close>










subsection \<open>Alternation\<close>





end
